theory Spec2Isabelle
  imports Main "HOL-Library.AList"
begin

section \<open>The migration script (first file of src/index.ts)\<close>

subsection \<open>JavaScript library functions the script calls\<close>

text \<open>
  \<^verbatim>\<open>parseInt(string)\<close> with no radix, as ECMAScript defines it: leading white space is
  dropped, one sign is read, a \<^verbatim>\<open>0x\<close>/\<^verbatim>\<open>0X\<close> prefix selects radix 16 (radix 10
  otherwise), and the longest prefix of digits of that radix is the number. No digit at
  all gives \<^verbatim>\<open>NaN\<close>, here \<open>None\<close>. The result is the mathematical integer (the
  double that JavaScript returns is that integer below \<open>2^53\<close>; \<open>-0\<close> is \<open>0\<close>).
  Characters are the ASCII ones.
\<close>

definition is_ws :: "char \<Rightarrow> bool" where
  "is_ws c = (of_char c \<in> {9, 10, 11, 12, 13, 32 :: nat})"

definition digit_val :: "char \<Rightarrow> nat option" where
  "digit_val c =
     (let n = (of_char c :: nat)
      in if 48 \<le> n \<and> n \<le> 57 then Some (n - 48)
         else if 97 \<le> n \<and> n \<le> 122 then Some (n - 87)
         else if 65 \<le> n \<and> n \<le> 90 then Some (n - 55)
         else None)"

definition radix_digit :: "nat \<Rightarrow> char \<Rightarrow> nat option" where
  "radix_digit R c =
     (case digit_val c of None \<Rightarrow> None | Some d \<Rightarrow> if d < R then Some d else None)"

definition digits_value :: "nat \<Rightarrow> string \<Rightarrow> nat" where
  "digits_value R Z =
     foldl (\<lambda>acc c. acc * R + (case radix_digit R c of None \<Rightarrow> 0 | Some d \<Rightarrow> d)) 0 Z"

definition parseInt :: "string \<Rightarrow> int option" where
  "parseInt inputString =
     (let S = dropWhile is_ws inputString;
          sign = (case S of c # _ \<Rightarrow> if c = CHR ''-'' then - 1 else 1 | [] \<Rightarrow> (1 :: int));
          S1 = (case S of c # r \<Rightarrow> if c = CHR ''-'' \<or> c = CHR ''+'' then r else S | [] \<Rightarrow> S);
          hex = (take 2 S1 = ''0x'' \<or> take 2 S1 = ''0X'');
          R = (if hex then 16 else 10);
          S2 = (if hex then drop 2 S1 else S1);
          Z = takeWhile (\<lambda>c. radix_digit R c \<noteq> None) S2
      in if Z = [] then None else Some (sign * int (digits_value R Z)))"

text \<open>
  \<^verbatim>\<open>s.split("_")\<close>: the segments between the separators, at least one of them
  (\<^verbatim>\<open>"".split("_")\<close> is \<^verbatim>\<open>[""]\<close>). \<open>nth_opt xs i\<close> is \<^verbatim>\<open>xs[i]\<close>, with
  \<open>None\<close> for \<^verbatim>\<open>undefined\<close>.
\<close>

fun split :: "char \<Rightarrow> string \<Rightarrow> string list" where
  "split sep [] = [[]]"
| "split sep (c # cs) =
     (if c = sep then [] # split sep cs
      else (case split sep cs of seg # segs \<Rightarrow> (c # seg) # segs | [] \<Rightarrow> [[c]]))"

fun nth_opt :: "'a list \<Rightarrow> nat \<Rightarrow> 'a option" where
  "nth_opt [] i = None"
| "nth_opt (x # xs) 0 = Some x"
| "nth_opt (x # xs) (Suc i) = nth_opt xs i"

subsection \<open>Configuration read at start-up (lines 9 to 41)\<close>

datatype HashingAlgorithms =
  argon2i | argon2id | bcrypt | md5 | pbkdf2Sha256 | pbkdf2Sha256Django | pbkdf2Sha1
  | scryptFirebase

text \<open>\<^verbatim>\<open>z.nativeEnum(HashingAlgorithms).parse\<close>: \<open>None\<close> when zod throws.\<close>

definition hasherSchema_parse :: "string \<Rightarrow> HashingAlgorithms option" where
  "hasherSchema_parse s =
     (if s = ''argon2i'' then Some argon2i
      else if s = ''argon2id'' then Some argon2id
      else if s = ''bcrypt'' then Some bcrypt
      else if s = ''md5'' then Some md5
      else if s = ''pbkdf2_sha256'' then Some pbkdf2Sha256
      else if s = ''pbkdf2_sha256_django'' then Some pbkdf2Sha256Django
      else if s = ''pbkdf2_sha1'' then Some pbkdf2Sha1
      else if s = ''scrypt_firebase'' then Some scryptFirebase
      else None)"

text \<open>
  \<^verbatim>\<open>process.env\<close> is a map from variable names to strings; \<^verbatim>\<open>a ?? b\<close> takes \<open>b\<close>
  only when the variable is not set (a variable set to the empty string stays).
\<close>

type_synonym process_env = "string \<Rightarrow> string option"

definition nullish :: "string option \<Rightarrow> string \<Rightarrow> string" where
  "nullish v d = (case v of None \<Rightarrow> d | Some s \<Rightarrow> s)"

record config =
  SECRET_KEY :: string
  DELAY :: "int option"
  RETRY_DELAY :: "int option"
  IMPORT_TO_DEV :: string
  OFFSET :: "int option"
  PASSWORD_HASHER :: HashingAlgorithms

datatype startup_error =
  InvalidPasswordHasher
  | SecretKeyRequired
  | DevelopmentInstanceKey

definition DELAY_of :: "process_env \<Rightarrow> int option" where
  "DELAY_of env = parseInt (nullish (env ''DELAY_MS'') ''1_000'')"

definition RETRY_DELAY_of :: "process_env \<Rightarrow> int option" where
  "RETRY_DELAY_of env = parseInt (nullish (env ''RETRY_DELAY_MS'') ''10_000'')"

definition IMPORT_TO_DEV_of :: "process_env \<Rightarrow> string" where
  "IMPORT_TO_DEV_of env = nullish (env ''IMPORT_TO_DEV_INSTANCE'') ''false''"

definition OFFSET_of :: "process_env \<Rightarrow> int option" where
  "OFFSET_of env = parseInt (nullish (env ''OFFSET'') ''0'')"

text \<open>
  A credential is a production one when the second segment of the key, split at
  underscores, is \<^verbatim>\<open>live\<close>.
\<close>

definition production_key :: "string \<Rightarrow> bool" where
  "production_key key = (nth_opt (split CHR ''_'' key) 1 = Some ''live'')"

text \<open>
  The top-level statements in their order: the hasher is parsed first (zod throws on an
  unknown name), then the key must be there and not empty, then the guard of line 37.
\<close>

definition startup :: "process_env \<Rightarrow> startup_error + config" where
  "startup env =
     (case hasherSchema_parse (nullish (env ''PASSWORD_HASHER'') ''bcrypt'') of
        None \<Rightarrow> Inl InvalidPasswordHasher
      | Some hasher \<Rightarrow>
          (case env ''CLERK_SECRET_KEY'' of
             None \<Rightarrow> Inl SecretKeyRequired
           | Some key \<Rightarrow>
               if key = [] then Inl SecretKeyRequired
               else if \<not> production_key key \<and> IMPORT_TO_DEV_of env = ''false''
               then Inl DevelopmentInstanceKey
               else Inr \<lparr>SECRET_KEY = key, DELAY = DELAY_of env,
                         RETRY_DELAY = RETRY_DELAY_of env,
                         IMPORT_TO_DEV = IMPORT_TO_DEV_of env, OFFSET = OFFSET_of env,
                         PASSWORD_HASHER = hasher\<rparr>))"

subsection \<open>Parsed JSON and the JavaScript operators applied to it\<close>

text \<open>
  The input files hold JSON, and an element of an array read from them is any JSON
  value. An object is the list of its own properties, each name once, in their
  order. Numbers are IEEE doubles; the model leaves their type open and takes the
  three operations the script applies to a number (truthiness, \<^verbatim>\<open>String\<close>,
  \<^verbatim>\<open>===\<close>) in a record. The one error these operations throw is a
  \<^verbatim>\<open>TypeError\<close>.
\<close>

datatype 'n json =
  JNull | JBool bool | JNum 'n | JStr string | JArr "'n json list"
  | JObj "(string \<times> 'n json) list"

type_synonym 'n obj = "(string \<times> 'n json) list"

record 'n number_ops =
  num_truthy :: "'n \<Rightarrow> bool"
  num_String :: "'n \<Rightarrow> string"
  num_eq :: "'n \<Rightarrow> 'n \<Rightarrow> bool"

datatype js_error = TypeError

text \<open>
  \<^verbatim>\<open>v.k\<close> for the names the script reads (\<^verbatim>\<open>userId\<close>, \<^verbatim>\<open>id\<close>, \<^verbatim>\<open>phone\<close>, none
  of them an index or \<^verbatim>\<open>length\<close>): \<open>get\<close> is the value read from a value that is not
  \<^verbatim>\<open>null\<close>, with \<open>None\<close> for \<^verbatim>\<open>undefined\<close> (only an object has such a property);
  \<open>read_property\<close> is the read itself, which throws on \<^verbatim>\<open>null\<close>.
\<close>

definition get :: "'n json \<Rightarrow> string \<Rightarrow> 'n json option" where
  "get v k = (case v of JObj kvs \<Rightarrow> map_of kvs k | _ \<Rightarrow> None)"

definition read_property :: "'n json \<Rightarrow> string \<Rightarrow> js_error + 'n json option" where
  "read_property v k = (if v = JNull then Inl TypeError else Inr (get v k))"

text \<open>\<^verbatim>\<open>!v\<close> is \<open>\<not> truthy v\<close>: the falsy values are \<^verbatim>\<open>undefined\<close>, \<^verbatim>\<open>null\<close>,
  \<^verbatim>\<open>false\<close>, the empty string and the falsy numbers.\<close>

fun truthy :: "'n number_ops \<Rightarrow> 'n json option \<Rightarrow> bool" where
  "truthy ops None = False"
| "truthy ops (Some JNull) = False"
| "truthy ops (Some (JBool b)) = b"
| "truthy ops (Some (JNum n)) = num_truthy ops n"
| "truthy ops (Some (JStr s)) = (s \<noteq> [])"
| "truthy ops (Some (JArr xs)) = True"
| "truthy ops (Some (JObj kvs)) = True"

text \<open>\<^verbatim>\<open>a === b\<close>. Two arrays or two objects are equal only when they are the same
  object, which two values read from two files never are.\<close>

fun strict_eq :: "'n number_ops \<Rightarrow> 'n json option \<Rightarrow> 'n json option \<Rightarrow> bool" where
  "strict_eq ops None None = True"
| "strict_eq ops (Some JNull) (Some JNull) = True"
| "strict_eq ops (Some (JBool a)) (Some (JBool b)) = (a = b)"
| "strict_eq ops (Some (JNum a)) (Some (JNum b)) = num_eq ops a b"
| "strict_eq ops (Some (JStr a)) (Some (JStr b)) = (a = b)"
| "strict_eq ops a b = False"

fun join :: "string \<Rightarrow> string list \<Rightarrow> string" where
  "join sep [] = []"
| "join sep [s] = s"
| "join sep (s # t # ss) = s @ sep @ join sep (t # ss)"

text \<open>
  \<^verbatim>\<open>String(v)\<close>. An object of JSON prints as \<^verbatim>\<open>[object Object]\<close>, unless it has an
  own property \<^verbatim>\<open>toString\<close>: that value is not a function, \<^verbatim>\<open>valueOf\<close> gives no
  primitive either, and the conversion throws. An array prints its elements joined by
  commas, \<^verbatim>\<open>null\<close> among them as the empty string, and throws when an element does.
\<close>

fun String :: "'n number_ops \<Rightarrow> 'n json \<Rightarrow> js_error + string"
  and Strings :: "'n number_ops \<Rightarrow> 'n json list \<Rightarrow> js_error + string list" where
  "String ops JNull = Inr ''null''"
| "String ops (JBool b) = Inr (if b then ''true'' else ''false'')"
| "String ops (JNum n) = Inr (num_String ops n)"
| "String ops (JStr s) = Inr s"
| "String ops (JArr xs) =
     (case Strings ops xs of Inl e \<Rightarrow> Inl e | Inr ss \<Rightarrow> Inr (join '','' ss))"
| "String ops (JObj kvs) =
     (if map_of kvs ''toString'' \<noteq> None then Inl TypeError else Inr ''[object Object]'')"
| "Strings ops [] = Inr []"
| "Strings ops (x # xs) =
     (case (if x = JNull then Inr [] else String ops x) of
        Inl e \<Rightarrow> Inl e
      | Inr s \<Rightarrow> (case Strings ops xs of Inl e \<Rightarrow> Inl e | Inr ss \<Rightarrow> Inr (s # ss)))"

text \<open>A natural number in decimal: the name of an array index.\<close>

function decimal_nat :: "nat \<Rightarrow> string" where
  "decimal_nat n =
     (if n < 10 then [''0123456789'' ! n]
      else decimal_nat (n div 10) @ [''0123456789'' ! (n mod 10)])"
  by pat_completeness auto
termination
  by (relation "measure id") auto

declare decimal_nat.simps [simp del]

text \<open>
  The own enumerable properties that \<^verbatim>\<open>{...v}\<close> copies: those of an object, the
  elements of an array and the characters of a string under their indices, none of
  another value.
\<close>

definition spread :: "'n json \<Rightarrow> 'n obj" where
  "spread v =
     (case v of
        JObj kvs \<Rightarrow> kvs
      | JArr xs \<Rightarrow> zip (map decimal_nat [0..<length xs]) xs
      | JStr s \<Rightarrow> zip (map decimal_nat [0..<length s]) (map (\<lambda>c. JStr [c]) s)
      | _ \<Rightarrow> [])"

text \<open>
  \<^verbatim>\<open>xs.find(f)\<close> and \<^verbatim>\<open>xs.map(f)\<close> for a callback that can throw: the elements are
  visited in order and the first throw ends the call.
\<close>

fun array_find :: "('a \<Rightarrow> js_error + bool) \<Rightarrow> 'a list \<Rightarrow> js_error + 'a option" where
  "array_find f [] = Inr None"
| "array_find f (x # xs) =
     (case f x of
        Inl e \<Rightarrow> Inl e
      | Inr found \<Rightarrow> if found then Inr (Some x) else array_find f xs)"

fun array_map :: "('a \<Rightarrow> js_error + 'b) \<Rightarrow> 'a list \<Rightarrow> js_error + 'b list" where
  "array_map f [] = Inr []"
| "array_map f (x # xs) =
     (case f x of
        Inl e \<Rightarrow> Inl e
      | Inr y \<Rightarrow> (case array_map f xs of Inl e \<Rightarrow> Inl e | Inr ys \<Rightarrow> Inr (y # ys)))"

subsection \<open>Record merger (lines 136 to 149)\<close>

text \<open>
  \<open>id_matches\<close> is the callback of \<^verbatim>\<open>find\<close>,
  \<^verbatim>\<open>userPhoneNumber.id === user.userId\<close>, and \<open>merge_user\<close> the callback of
  \<^verbatim>\<open>map\<close>. A value that is not an array has no \<^verbatim>\<open>find\<close> or \<^verbatim>\<open>map\<close> to call.
  \<^verbatim>\<open>userWithPhoneNumber?.phone\<close> does not throw: it is \<^verbatim>\<open>undefined\<close> when nothing
  was found, and \<open>get\<close> of the element found otherwise. The
  object spread with one more property, \<^verbatim>\<open>{...user, phoneNumber: v}\<close>, is
  \<^const>\<open>AList.update\<close> on the properties copied: the property is replaced where it
  stands, or added last.
\<close>

definition id_matches :: "'n number_ops \<Rightarrow> 'n json \<Rightarrow> 'n json \<Rightarrow> js_error + bool" where
  "id_matches ops user userPhoneNumber =
     (case read_property userPhoneNumber ''id'' of
        Inl e \<Rightarrow> Inl e
      | Inr a \<Rightarrow>
          (case read_property user ''userId'' of
             Inl e \<Rightarrow> Inl e
           | Inr b \<Rightarrow> Inr (strict_eq ops a b)))"

definition merge_user :: "'n number_ops \<Rightarrow> 'n json \<Rightarrow> 'n json \<Rightarrow> js_error + 'n json" where
  "merge_user ops parsedUserPhoneNumbers user =
     (case parsedUserPhoneNumbers of
        JArr phones \<Rightarrow>
          (case array_find (id_matches ops user) phones of
             Inl e \<Rightarrow> Inl e
           | Inr None \<Rightarrow> Inr user
           | Inr (Some userWithPhoneNumber) \<Rightarrow>
               (case get userWithPhoneNumber ''phone'' of
                  None \<Rightarrow> Inr user
                | Some phone \<Rightarrow>
                    if \<not> truthy ops (Some phone) then Inr user
                    else (case String ops phone of
                            Inl e \<Rightarrow> Inl e
                          | Inr s \<Rightarrow>
                              Inr (JObj (AList.update ''phoneNumber'' (JArr [JStr s])
                                           (spread user))))))
      | _ \<Rightarrow> Inl TypeError)"

definition parsedUsersWithPhoneNumbers ::
  "'n number_ops \<Rightarrow> 'n json \<Rightarrow> 'n json \<Rightarrow> js_error + 'n json list" where
  "parsedUsersWithPhoneNumbers ops parsedUserData parsedUserPhoneNumbers =
     (case parsedUserData of
        JArr users \<Rightarrow> array_map (merge_user ops parsedUserPhoneNumbers) users
      | _ \<Rightarrow> Inl TypeError)"

text \<open>\<^verbatim>\<open>xs.slice(start)\<close>: \<^verbatim>\<open>NaN\<close> counts as 0, a negative start counts from the
  end.\<close>

definition slice :: "int option \<Rightarrow> 'a list \<Rightarrow> 'a list" where
  "slice start xs =
     (let len = int (length xs);
          relativeStart = (case start of None \<Rightarrow> 0 | Some n \<Rightarrow> n);
          k = (if relativeStart < 0 then max (len + relativeStart) 0
               else min relativeStart len)
      in drop (nat k) xs)"

subsection \<open>Validator (lines 43 to 52)\<close>

record User =
  userId :: string
  email :: string
  firstName :: "string option"
  lastName :: "string option"
  password :: "string option"
  phoneNumber :: "string list option"

fun z_string :: "'n json option \<Rightarrow> string option" where
  "z_string (Some (JStr s)) = Some s"
| "z_string v = None"

fun z_string_optional :: "'n json option \<Rightarrow> string option option" where
  "z_string_optional None = Some None"
| "z_string_optional (Some (JStr s)) = Some (Some s)"
| "z_string_optional v = None"

fun z_strings :: "'n json list \<Rightarrow> string list option" where
  "z_strings [] = Some []"
| "z_strings (JStr s # vs) = (case z_strings vs of None \<Rightarrow> None | Some ss \<Rightarrow> Some (s # ss))"
| "z_strings (v # vs) = None"

fun z_string_array_optional :: "'n json option \<Rightarrow> string list option option" where
  "z_string_array_optional None = Some None"
| "z_string_array_optional (Some (JArr vs)) = map_option Some (z_strings vs)"
| "z_string_array_optional v = None"

text \<open>
  \<^verbatim>\<open>userSchema.safeParse\<close>. The e-mail pattern is zod's and is a parameter
  (\<open>is_email\<close>). On failure the error lists the keys whose value was refused, in the
  schema's order, or the empty path when the value is not an object at all; on success
  the data holds the six known keys only.
\<close>

definition safeParse :: "(string \<Rightarrow> bool) \<Rightarrow> 'n json \<Rightarrow> string list + User" where
  "safeParse is_email userData =
     (case userData of
        JObj kvs \<Rightarrow>
          (let z_userId = z_string (map_of kvs ''userId'');
               z_email = (case z_string (map_of kvs ''email'') of
                            None \<Rightarrow> None
                          | Some s \<Rightarrow> if is_email s then Some s else None);
               z_firstName = z_string_optional (map_of kvs ''firstName'');
               z_lastName = z_string_optional (map_of kvs ''lastName'');
               z_password = z_string_optional (map_of kvs ''password'');
               z_phoneNumber = z_string_array_optional (map_of kvs ''phoneNumber'')
           in case (z_userId, z_email, z_firstName, z_lastName, z_password, z_phoneNumber) of
                (Some u, Some e, Some f, Some l, Some p, Some ph) \<Rightarrow>
                  Inr \<lparr>userId = u, email = e, firstName = f, lastName = l, password = p,
                       phoneNumber = ph\<rparr>
              | _ \<Rightarrow>
                  Inl ((if z_userId = None then [''userId''] else [])
                     @ (if z_email = None then [''email''] else [])
                     @ (if z_firstName = None then [''firstName''] else [])
                     @ (if z_lastName = None then [''lastName''] else [])
                     @ (if z_password = None then [''password''] else [])
                     @ (if z_phoneNumber = None then [''phoneNumber''] else [])))
      | _ \<Rightarrow> Inl [[]])"

subsection \<open>The create request (lines 54 to 71)\<close>

text \<open>
  The two shapes of the request. With a password digest: \<^verbatim>\<open>externalId\<close>,
  \<^verbatim>\<open>emailAddress\<close>, \<^verbatim>\<open>firstName\<close>, \<^verbatim>\<open>lastName\<close>, \<^verbatim>\<open>phoneNumber\<close>,
  \<^verbatim>\<open>passwordDigest\<close>, \<^verbatim>\<open>passwordHasher\<close>. Without: \<^verbatim>\<open>externalId\<close>,
  \<^verbatim>\<open>emailAddress\<close>, \<^verbatim>\<open>firstName\<close>, \<^verbatim>\<open>lastName\<close> and
  \<^verbatim>\<open>skipPasswordRequirement: true\<close>.
\<close>

datatype createUserParams =
  WithPasswordDigest string "string list" "string option" "string option"
    "string list option" string HashingAlgorithms
  | SkipPasswordRequirement string "string list" "string option" "string option"

definition createUser :: "config \<Rightarrow> User \<Rightarrow> createUserParams" where
  "createUser cfg userData =
     (case password userData of
        None \<Rightarrow>
          SkipPasswordRequirement (userId userData) [email userData] (firstName userData)
            (lastName userData)
      | Some pw \<Rightarrow>
          if pw \<noteq> [] then
            WithPasswordDigest (userId userData) [email userData] (firstName userData)
              (lastName userData) (phoneNumber userData) pw (PASSWORD_HASHER cfg)
          else
            SkipPasswordRequirement (userId userData) [email userData]
              (firstName userData) (lastName userData))"

subsection \<open>The Remote User Sink, the audit log and the driver's state\<close>

text \<open>
  What the create call throws: a value whose \<^verbatim>\<open>status\<close> property is an integer, or
  is missing or anything else (\<open>None\<close>: such a status is neither \<^verbatim>\<open>=== 422\<close> nor
  \<^verbatim>\<open>=== 429\<close>), and a payload of any type. What the \<^verbatim>\<open>try\<close> block can throw is
  this or zod's validation error, which has no \<^verbatim>\<open>status\<close> property. Neither has a
  property \<^verbatim>\<open>userId\<close>, so the log entry \<^verbatim>\<open>{userId: userData.userId, ...error}\<close>
  is the record's \<^verbatim>\<open>userId\<close> with the error.
\<close>

datatype 'b api_error = ApiError (status: "int option") (detail: 'b)

datatype 'b thrown = ZodError "string list" | ClerkError "'b api_error"

fun thrown_status :: "'b thrown \<Rightarrow> int option" where
  "thrown_status (ZodError issues) = None"
| "thrown_status (ClerkError e) = status e"

datatype ('n, 'b) log_entry = LogEntry (entry_userId: "'n json option") (entry_error: "'b thrown")

text \<open>
  The sink is any deterministic machine: from its state and a request, the answer
  (\<open>None\<close> when the user was created) and its next state.
\<close>

type_synonym ('s, 'b) sink = "'s \<Rightarrow> createUserParams \<Rightarrow> 'b api_error option \<times> 's"

text \<open>Everything the driver does to the world, in the order it does it.\<close>

datatype ('n, 'b) event =
  ReadFile string
  | Cooldown "int option"
  | RateLimitCooldown "int option"
  | CreateUser createUserParams
  | AppendLog "('n, 'b) log_entry"

record ('n, 'b, 's) state =
  migrated :: nat
  alreadyExists :: nat
  effects :: "('n, 'b) event list"
  sink_state :: 's

definition appendLog ::
  "('n, 'b) log_entry \<Rightarrow> ('n, 'b, 's) state \<Rightarrow> ('n, 'b, 's) state" where
  "appendLog payload st = st\<lparr>effects := effects st @ [AppendLog payload]\<rparr>"

definition cooldown :: "config \<Rightarrow> ('n, 'b, 's) state \<Rightarrow> ('n, 'b, 's) state" where
  "cooldown cfg st = st\<lparr>effects := effects st @ [Cooldown (DELAY cfg)]\<rparr>"

definition rateLimitCooldown :: "config \<Rightarrow> ('n, 'b, 's) state \<Rightarrow> ('n, 'b, 's) state" where
  "rateLimitCooldown cfg st = st\<lparr>effects := effects st @ [RateLimitCooldown (RETRY_DELAY cfg)]\<rparr>"

subsection \<open>Migration driver (lines 84 to 111 and 121 to 174)\<close>

text \<open>
  The statements of the \<^verbatim>\<open>try\<close> block before \<^verbatim>\<open>migrated++\<close>: what they throw, if
  anything, and the state they leave.
\<close>

definition try_create ::
  "config \<Rightarrow> (string \<Rightarrow> bool) \<Rightarrow> ('s, 'b) sink \<Rightarrow> 'n json \<Rightarrow> ('n, 'b, 's) state
     \<Rightarrow> 'b thrown option \<times> ('n, 'b, 's) state" where
  "try_create cfg is_email sink userData st =
     (case safeParse is_email userData of
        Inl issues \<Rightarrow> (Some (ZodError issues), st)
      | Inr parsedUserData \<Rightarrow>
          (case sink (sink_state st) (createUser cfg parsedUserData) of
             (answer, s') \<Rightarrow>
               (map_option ClerkError answer,
                st\<lparr>effects := effects st @ [CreateUser (createUser cfg parsedUserData)],
                   sink_state := s'\<rparr>)))"

text \<open>
  \<^verbatim>\<open>processUserToClerk\<close>. The retry after status 429 has no bound, so the function is
  partial: \<open>None\<close> is a run that never returns. A call that returns is fulfilled with
  the state it leaves (\<open>Inr\<close>), or rejected with what the \<^verbatim>\<open>catch\<close> block itself
  throws and the state reached (\<open>Inl\<close>): the payload of a log entry reads
  \<^verbatim>\<open>userData.userId\<close> before \<^verbatim>\<open>appendLog\<close> is called, and that read throws when
  the record is \<^verbatim>\<open>null\<close>.
\<close>

partial_function (option) processUserToClerk ::
  "config \<Rightarrow> (string \<Rightarrow> bool) \<Rightarrow> ('s, 'b) sink \<Rightarrow> 'n json \<Rightarrow> ('n, 'b, 's) state
     \<Rightarrow> (js_error \<times> ('n, 'b, 's) state + ('n, 'b, 's) state) option" where
  "processUserToClerk cfg is_email sink userData st =
     (case try_create cfg is_email sink userData st of
        (None, st1) \<Rightarrow> Some (Inr (st1\<lparr>migrated := migrated st1 + 1\<rparr>))
      | (Some error, st1) \<Rightarrow>
          if thrown_status error = Some 422 then
            (case read_property userData ''userId'' of
               Inl e \<Rightarrow> Some (Inl (e, st1))
             | Inr uid \<Rightarrow>
                 (let st2 = appendLog (LogEntry uid error) st1
                  in Some (Inr (st2\<lparr>alreadyExists := alreadyExists st2 + 1\<rparr>))))
          else if thrown_status error = Some 429 then
            processUserToClerk cfg is_email sink userData (rateLimitCooldown cfg st1)
          else
            (case read_property userData ''userId'' of
               Inl e \<Rightarrow> Some (Inl (e, st1))
             | Inr uid \<Rightarrow> Some (Inr (appendLog (LogEntry uid error) st1))))"

declare processUserToClerk.simps [code]

text \<open>
  The \<^verbatim>\<open>for\<close> loop of \<^verbatim>\<open>main\<close> over \<^verbatim>\<open>offsetUsers\<close>: a call that is rejected
  ends the loop.
\<close>

fun for_offsetUsers ::
  "config \<Rightarrow> (string \<Rightarrow> bool) \<Rightarrow> ('s, 'b) sink \<Rightarrow> 'n json list \<Rightarrow> ('n, 'b, 's) state
     \<Rightarrow> (js_error \<times> ('n, 'b, 's) state + ('n, 'b, 's) state) option" where
  "for_offsetUsers cfg is_email sink [] st = Some (Inr st)"
| "for_offsetUsers cfg is_email sink (userData # rest) st =
     (case processUserToClerk cfg is_email sink userData (cooldown cfg st) of
        None \<Rightarrow> None
      | Some (Inl rejected) \<Rightarrow> Some (Inl rejected)
      | Some (Inr st') \<Rightarrow> for_offsetUsers cfg is_email sink rest st')"

text \<open>
  \<^verbatim>\<open>main\<close>. The file system is a parameter: the value parsed from a file, \<open>None\<close>
  when reading or parsing it throws. A run ends fulfilled with its state (\<open>Inr\<close>), or
  rejected with the error and the state reached (\<open>Inl\<close>).
\<close>

datatype failure = AtStartup startup_error | ReadFailed string | Uncaught js_error

definition offsetUsers :: "config \<Rightarrow> 'a list \<Rightarrow> 'a list" where
  "offsetUsers cfg merged = slice (OFFSET cfg) merged"

definition readFile ::
  "(string \<Rightarrow> 'a option) \<Rightarrow> string \<Rightarrow> ('n, 'b, 's) state
     \<Rightarrow> 'a option \<times> ('n, 'b, 's) state" where
  "readFile fs name st = (fs name, st\<lparr>effects := effects st @ [ReadFile name]\<rparr>)"

definition main ::
  "config \<Rightarrow> 'n number_ops \<Rightarrow> (string \<Rightarrow> bool) \<Rightarrow> ('s, 'b) sink \<Rightarrow> string list
     \<Rightarrow> (string \<Rightarrow> 'n json option) \<Rightarrow> ('n, 'b, 's) state
     \<Rightarrow> (failure \<times> ('n, 'b, 's) state + ('n, 'b, 's) state) option" where
  "main cfg ops is_email sink argv fs st =
     (let inputFileName = nullish (nth_opt argv 2) ''users.json'';
          phoneInputFileName = nullish (nth_opt argv 3) ''users-phone-numbers.json''
      in case readFile fs inputFileName st of
           (None, st1) \<Rightarrow> Some (Inl (ReadFailed inputFileName, st1))
         | (Some parsedUserData, st1) \<Rightarrow>
             (case readFile fs phoneInputFileName st1 of
                (None, st2) \<Rightarrow> Some (Inl (ReadFailed phoneInputFileName, st2))
              | (Some parsedUserPhoneNumbers, st2) \<Rightarrow>
                  (case parsedUsersWithPhoneNumbers ops parsedUserData
                          parsedUserPhoneNumbers of
                     Inl e \<Rightarrow> Some (Inl (Uncaught e, st2))
                   | Inr merged \<Rightarrow>
                       (case for_offsetUsers cfg is_email sink (offsetUsers cfg merged) st2 of
                          None \<Rightarrow> None
                        | Some (Inl (e, st')) \<Rightarrow> Some (Inl (Uncaught e, st'))
                        | Some (Inr st') \<Rightarrow> Some (Inr st')))))"

text \<open>The whole script: the top-level statements, then \<^verbatim>\<open>main()\<close>.\<close>

definition initial :: "'s \<Rightarrow> ('n, 'b, 's) state" where
  "initial s0 = \<lparr>migrated = 0, alreadyExists = 0, effects = [], sink_state = s0\<rparr>"

definition migration_script ::
  "process_env \<Rightarrow> 'n number_ops \<Rightarrow> (string \<Rightarrow> bool) \<Rightarrow> ('s, 'b) sink \<Rightarrow> string list
     \<Rightarrow> (string \<Rightarrow> 'n json option) \<Rightarrow> 's
     \<Rightarrow> (failure \<times> ('n, 'b, 's) state + ('n, 'b, 's) state) option" where
  "migration_script env ops is_email sink argv fs s0 =
     (case startup env of
        Inl e \<Rightarrow> Some (Inl (AtStartup e, initial s0))
      | Inr cfg \<Rightarrow> main cfg ops is_email sink argv fs (initial s0))"

section \<open>The cleanup script (second file of src/index.ts)\<close>

text \<open>
  The names of the second file that the first one has too carry the prefix
  \<open>cleanup\<close>. Of a remote user only its \<^verbatim>\<open>id\<close> is read, so the list of users is the
  list of their ids. The log holds \<^verbatim>\<open>{userId, deleted: true}\<close> or
  \<^verbatim>\<open>{userId, error, deleted: false}\<close>.
\<close>

datatype cleanup_startup_error = CleanupSecretKeyRequired | ProductionKey

definition cleanup_startup :: "process_env \<Rightarrow> cleanup_startup_error + string" where
  "cleanup_startup env =
     (case env ''CLERK_SECRET_KEY'' of
        None \<Rightarrow> Inl CleanupSecretKeyRequired
      | Some key \<Rightarrow>
          if key = [] then Inl CleanupSecretKeyRequired
          else if production_key key then Inl ProductionKey
          else Inr key)"

datatype 'b cleanup_payload = Deleted string | NotDeleted string 'b

datatype 'b cleanup_event =
  GetUserList
  | DeleteUser string
  | CleanupLog "'b cleanup_payload"

record ('b, 's) cleanup_state =
  usersDeleted :: nat
  cleanup_effects :: "'b cleanup_event list"
  clerk_state :: 's

record ('b, 's) clerk_users =
  getUserList :: "'s \<Rightarrow> ('b + string list) \<times> 's"
  deleteUser :: "'s \<Rightarrow> string \<Rightarrow> 'b option \<times> 's"

definition cleanup_appendLog ::
  "'b cleanup_payload \<Rightarrow> ('b, 's) cleanup_state \<Rightarrow> ('b, 's) cleanup_state" where
  "cleanup_appendLog payload st =
     st\<lparr>cleanup_effects := cleanup_effects st @ [CleanupLog payload]\<rparr>"

text \<open>
  The \<^verbatim>\<open>for\<close> loop over \<^verbatim>\<open>clerkUsers\<close>: the error it throws, if any, and the state
  it leaves.
\<close>

fun for_clerkUsers ::
  "('b, 's) clerk_users \<Rightarrow> string list \<Rightarrow> ('b, 's) cleanup_state
     \<Rightarrow> 'b option \<times> ('b, 's) cleanup_state" where
  "for_clerkUsers clerk [] st = (None, st)"
| "for_clerkUsers clerk (clerkUser # rest) st =
     (case deleteUser clerk (clerk_state st) clerkUser of
        (None, s') \<Rightarrow>
          for_clerkUsers clerk rest
            (cleanup_appendLog (Deleted clerkUser)
               (st\<lparr>cleanup_effects := cleanup_effects st @ [DeleteUser clerkUser],
                   clerk_state := s', usersDeleted := usersDeleted st + 1\<rparr>))
      | (Some error, s') \<Rightarrow>
          (Some error,
           cleanup_appendLog (NotDeleted clerkUser error)
             (st\<lparr>cleanup_effects := cleanup_effects st @ [DeleteUser clerkUser],
                 clerk_state := s'\<rparr>)))"

definition cleanup_main ::
  "('b, 's) clerk_users \<Rightarrow> ('b, 's) cleanup_state \<Rightarrow> 'b option \<times> ('b, 's) cleanup_state" where
  "cleanup_main clerk st =
     (case getUserList clerk (clerk_state st) of
        (Inl error, s') \<Rightarrow>
          (Some error,
           st\<lparr>cleanup_effects := cleanup_effects st @ [GetUserList], clerk_state := s'\<rparr>)
      | (Inr clerkUsers, s') \<Rightarrow>
          for_clerkUsers clerk clerkUsers
            (st\<lparr>cleanup_effects := cleanup_effects st @ [GetUserList], clerk_state := s'\<rparr>))"

definition cleanup_initial :: "'s \<Rightarrow> ('b, 's) cleanup_state" where
  "cleanup_initial s0 = \<lparr>usersDeleted = 0, cleanup_effects = [], clerk_state = s0\<rparr>"

definition cleanup_script ::
  "process_env \<Rightarrow> ('b, 's) clerk_users \<Rightarrow> 's
     \<Rightarrow> (cleanup_startup_error + 'b) option \<times> ('b, 's) cleanup_state" where
  "cleanup_script env clerk s0 =
     (case cleanup_startup env of
        Inl e \<Rightarrow> (Some (Inl e), cleanup_initial s0)
      | Inr key \<Rightarrow>
          (case cleanup_main clerk (cleanup_initial s0) of
             (r, st) \<Rightarrow> (map_option Inr r, st)))"

section \<open>Notions used to state the properties\<close>

text \<open>
  \<open>rate_limited sink p n s\<close>: asked \<open>n\<close> times in a row for \<open>p\<close> from the state
  \<open>s\<close>, the sink answers each time with status 429; the result is the state it is in
  then.
\<close>

fun rate_limited :: "('s, 'b) sink \<Rightarrow> createUserParams \<Rightarrow> nat \<Rightarrow> 's \<Rightarrow> 's option" where
  "rate_limited sink p 0 s = Some s"
| "rate_limited sink p (Suc n) s =
     (case sink s p of
        (None, s') \<Rightarrow> None
      | (Some e, s') \<Rightarrow> if status e = Some 429 then rate_limited sink p n s' else None)"

text \<open>The effects of \<open>n\<close> attempts that were answered with status 429.\<close>

definition retries :: "config \<Rightarrow> createUserParams \<Rightarrow> nat \<Rightarrow> ('n, 'b) event list" where
  "retries cfg p n = concat (replicate n [CreateUser p, RateLimitCooldown (RETRY_DELAY cfg)])"

text \<open>
  \<open>attempts p rd uid evs\<close>: \<open>evs\<close> is what submitting one valid record can do: any
  number of create calls for \<open>p\<close>, each followed by the rate-limit cooldown \<open>rd\<close>,
  then one last create call for \<open>p\<close>, followed by nothing or by one log entry for
  \<open>uid\<close> with the sink's error, whose status is not 429.
\<close>

fun attempts ::
  "createUserParams \<Rightarrow> int option \<Rightarrow> 'n json option \<Rightarrow> ('n, 'b) event list \<Rightarrow> bool" where
  "attempts p rd uid (CreateUser q # RateLimitCooldown d # evs) =
     (q = p \<and> d = rd \<and> attempts p rd uid evs)"
| "attempts p rd uid [CreateUser q] = (q = p)"
| "attempts p rd uid [CreateUser q, AppendLog entry] =
     (q = p \<and> entry_userId entry = uid
      \<and> (case entry_error entry of
           ZodError issues \<Rightarrow> False
         | ClerkError e \<Rightarrow> status e \<noteq> Some 429))"
| "attempts p rd uid evs = False"

text \<open>
  \<open>submission_effects cfg is_email userData evs\<close>: \<open>evs\<close> is what one fulfilled call
  of \<^verbatim>\<open>processUserToClerk\<close> for \<open>userData\<close> can do: the log entry of a failed
  validation, or the attempts for the request made from the record.
  \<open>record_effects\<close>: the same after the pacing delay, which is what the loop does for
  one record.
\<close>

definition submission_effects ::
  "config \<Rightarrow> (string \<Rightarrow> bool) \<Rightarrow> 'n json \<Rightarrow> ('n, 'b) event list \<Rightarrow> bool" where
  "submission_effects cfg is_email userData evs =
     (case safeParse is_email userData of
        Inl issues \<Rightarrow>
          evs = [AppendLog (LogEntry (get userData ''userId'') (ZodError issues))]
      | Inr parsedUserData \<Rightarrow>
          attempts (createUser cfg parsedUserData) (RETRY_DELAY cfg)
            (get userData ''userId'') evs)"

definition record_effects ::
  "config \<Rightarrow> (string \<Rightarrow> bool) \<Rightarrow> 'n json \<Rightarrow> ('n, 'b) event list \<Rightarrow> bool" where
  "record_effects cfg is_email userData evs =
     (case evs of
        Cooldown d # rest \<Rightarrow> d = DELAY cfg \<and> submission_effects cfg is_email userData rest
      | _ \<Rightarrow> False)"


text \<open>
  \<open>stringable ops p\<close>: \<^verbatim>\<open>String\<close> does not throw on the \<^verbatim>\<open>phone\<close> of the
  auxiliary record \<open>p\<close>. \<open>records_ok\<close>: no element of either array is \<^verbatim>\<open>null\<close>,
  and every auxiliary record is stringable.
\<close>

definition stringable :: "'n number_ops \<Rightarrow> 'n json \<Rightarrow> bool" where
  "stringable ops p =
     (case get p ''phone'' of
        None \<Rightarrow> True
      | Some phone \<Rightarrow> (case String ops phone of Inl e \<Rightarrow> False | Inr s \<Rightarrow> True))"

definition records_ok :: "'n number_ops \<Rightarrow> 'n json list \<Rightarrow> 'n json list \<Rightarrow> bool" where
  "records_ok ops users phones =
     (JNull \<notin> set users \<and> JNull \<notin> set phones \<and> list_all (stringable ops) phones)"

text \<open>
  \<open>all_deleted clerk us s\<close>: deleting the users \<open>us\<close> one after the other from the
  state \<open>s\<close> succeeds each time; the result is the state the provider is in then.
\<close>

fun all_deleted :: "('b, 's) clerk_users \<Rightarrow> string list \<Rightarrow> 's \<Rightarrow> 's option" where
  "all_deleted clerk [] s = Some s"
| "all_deleted clerk (u # us) s =
     (case deleteUser clerk s u of
        (None, s') \<Rightarrow> all_deleted clerk us s'
      | (Some e, s') \<Rightarrow> None)"

definition deletions :: "string list \<Rightarrow> 'b cleanup_event list" where
  "deletions us = concat (map (\<lambda>u. [DeleteUser u, CleanupLog (Deleted u)]) us)"

text \<open>
  \<open>rate_limiting_ends sink\<close>: whatever its state and the request, the sink answers with
  status 429 only finitely many times in a row.
\<close>

definition rate_limiting_ends :: "('s, 'b) sink \<Rightarrow> bool" where
  "rate_limiting_ends sink =
     (\<forall>s p. \<exists>n s_n. rate_limited sink p n s = Some s_n
        \<and> (case fst (sink s_n p) of None \<Rightarrow> True | Some e \<Rightarrow> status e \<noteq> Some 429))"

section \<open>Example inputs\<close>

text \<open>
  Numbers that are integers, printed in decimal as \<^verbatim>\<open>String\<close> prints an integer
  below \<open>10^21\<close>; an e-mail test that asks for an \<^verbatim>\<open>@\<close>; a sink that plays a list
  of answers and accepts every request after them; a sink that refuses one
  \<^verbatim>\<open>externalId\<close> as a duplicate; a provider whose deletions fail for one id.
\<close>

definition decimal :: "int \<Rightarrow> string" where
  "decimal i = (if i < 0 then CHR ''-'' # decimal_nat (nat (- i)) else decimal_nat (nat i))"

definition int_ops :: "int number_ops" where
  "int_ops = \<lparr>num_truthy = (\<lambda>n. n \<noteq> 0), num_String = decimal, num_eq = (=)\<rparr>"

definition has_at :: "string \<Rightarrow> bool" where
  "has_at s = (CHR ''@'' \<in> set s)"

definition example_config :: config where
  "example_config =
     \<lparr>SECRET_KEY = ''sk_live_abc'', DELAY = Some 1, RETRY_DELAY = Some 10,
      IMPORT_TO_DEV = ''false'', OFFSET = Some 0, PASSWORD_HASHER = bcrypt\<rparr>"

fun scripted :: "(unit api_error option list, unit) sink" where
  "scripted [] p = (None, [])"
| "scripted (a # as) p = (a, as)"

fun externalId :: "createUserParams \<Rightarrow> string" where
  "externalId (WithPasswordDigest i e f l ph d h) = i"
| "externalId (SkipPasswordRequirement i e f l) = i"

definition refusing :: "string \<Rightarrow> (unit, unit) sink" where
  "refusing i s p = (if externalId p = i then Some (ApiError (Some 422) ()) else None, s)"

definition example_user :: "string \<Rightarrow> string \<Rightarrow> int json" where
  "example_user i mail = JObj [(''userId'', JStr i), (''email'', JStr mail)]"

definition example_phone :: "string \<Rightarrow> int \<Rightarrow> int json" where
  "example_phone i n = JObj [(''id'', JStr i), (''phone'', JNum n)]"

definition failing_for :: "string \<Rightarrow> (string, unit) clerk_users" where
  "failing_for i =
     \<lparr>getUserList = (\<lambda>s. (Inr [''u1'', ''u2'', ''u3''], s)),
      deleteUser = (\<lambda>s u. (if u = i then Some ''not found'' else None, s))\<rparr>"

section \<open>Lemmas about the driver\<close>

text \<open>One call of \<^verbatim>\<open>processUserToClerk\<close>, by what the validator and the sink answer.\<close>

lemma valid_is_object:
  assumes "safeParse is_email userData = Inr d"
  shows "\<exists>kvs. userData = JObj kvs"
  using assms by (cases userData) (simp_all add: safeParse_def)

lemma valid_read_property:
  assumes "safeParse is_email userData = Inr d"
  shows "read_property userData k = Inr (get userData k)"
  using valid_is_object[OF assms] by (auto simp: read_property_def)

lemma process_invalid:
  assumes "safeParse is_email userData = Inl issues" and "userData \<noteq> JNull"
  shows "processUserToClerk cfg is_email sink userData st =
           Some (Inr (appendLog (LogEntry (get userData ''userId'') (ZodError issues)) st))"
  by (subst processUserToClerk.simps) (simp add: try_create_def read_property_def assms)

lemma process_null:
  "processUserToClerk cfg is_email sink JNull st = Some (Inl (TypeError, st))"
  by (subst processUserToClerk.simps) (simp add: try_create_def read_property_def safeParse_def)

lemma process_created:
  assumes "safeParse is_email userData = Inr d"
    and "sink (sink_state st) (createUser cfg d) = (None, s')"
  shows "processUserToClerk cfg is_email sink userData st =
           Some (Inr (st\<lparr>migrated := migrated st + 1,
                    effects := effects st @ [CreateUser (createUser cfg d)],
                    sink_state := s'\<rparr>))"
  by (subst processUserToClerk.simps) (simp add: try_create_def assms)

lemma process_422:
  assumes "safeParse is_email userData = Inr d"
    and "sink (sink_state st) (createUser cfg d) = (Some e, s')"
    and "status e = Some 422"
  shows "processUserToClerk cfg is_email sink userData st =
           Some (Inr (st\<lparr>alreadyExists := alreadyExists st + 1,
                    effects := effects st @ [CreateUser (createUser cfg d),
                       AppendLog (LogEntry (get userData ''userId'') (ClerkError e))],
                    sink_state := s'\<rparr>))"
  by (subst processUserToClerk.simps)
    (simp add: try_create_def appendLog_def assms valid_read_property[OF assms(1)])

lemma process_429:
  assumes "safeParse is_email userData = Inr d"
    and "sink (sink_state st) (createUser cfg d) = (Some e, s')"
    and "status e = Some 429"
  shows "processUserToClerk cfg is_email sink userData st =
           processUserToClerk cfg is_email sink userData
             (st\<lparr>effects := effects st @ [CreateUser (createUser cfg d),
                       RateLimitCooldown (RETRY_DELAY cfg)],
                 sink_state := s'\<rparr>)"
proof -
  have eq: "rateLimitCooldown cfg
              (st\<lparr>effects := effects st @ [CreateUser (createUser cfg d)], sink_state := s'\<rparr>) =
            st\<lparr>effects := effects st @ [CreateUser (createUser cfg d),
                       RateLimitCooldown (RETRY_DELAY cfg)], sink_state := s'\<rparr>"
    by (simp add: rateLimitCooldown_def)
  show ?thesis
    by (subst processUserToClerk.simps) (simp add: try_create_def assms eq)
qed

lemma process_other:
  assumes "safeParse is_email userData = Inr d"
    and "sink (sink_state st) (createUser cfg d) = (Some e, s')"
    and "status e \<noteq> Some 422" and "status e \<noteq> Some 429"
  shows "processUserToClerk cfg is_email sink userData st =
           Some (Inr (st\<lparr>effects := effects st @ [CreateUser (createUser cfg d),
                       AppendLog (LogEntry (get userData ''userId'') (ClerkError e))],
                    sink_state := s'\<rparr>))"
  by (subst processUserToClerk.simps)
    (simp add: try_create_def appendLog_def assms valid_read_property[OF assms(1)])

lemma process_retries:
  assumes "safeParse is_email userData = Inr d"
    and "rate_limited sink (createUser cfg d) n (sink_state st) = Some s_n"
  shows "processUserToClerk cfg is_email sink userData st =
           processUserToClerk cfg is_email sink userData
             (st\<lparr>effects := effects st @ retries cfg (createUser cfg d) n, sink_state := s_n\<rparr>)"
  using assms(2)
proof (induction n arbitrary: st)
  case 0
  then show ?case by (cases st) (simp add: retries_def)
next
  case (Suc n)
  obtain a s1 where a: "sink (sink_state st) (createUser cfg d) = (a, s1)"
    by (cases "sink (sink_state st) (createUser cfg d)")
  with Suc.prems obtain e where e: "a = Some e" "status e = Some 429"
    and rl: "rate_limited sink (createUser cfg d) n s1 = Some s_n"
    by (auto split: option.splits if_splits)
  let ?st1 = "st\<lparr>effects := effects st @ [CreateUser (createUser cfg d),
                       RateLimitCooldown (RETRY_DELAY cfg)], sink_state := s1\<rparr>"
  have "processUserToClerk cfg is_email sink userData st =
          processUserToClerk cfg is_email sink userData ?st1"
    using process_429[of is_email userData d sink st cfg e s1] assms(1) a e by simp
  also have "\<dots> = processUserToClerk cfg is_email sink userData
             (?st1\<lparr>effects := effects ?st1 @ retries cfg (createUser cfg d) n, sink_state := s_n\<rparr>)"
    using Suc.IH[of ?st1] rl by simp
  finally show ?case by (cases st) (simp add: retries_def)
qed

text \<open>What a call that returns has done, whatever the sink.\<close>

lemma process_result:
  fixes sink :: "('s, 'b) sink" and userData :: "'n json" and st :: "('n, 'b, 's) state"
  assumes "processUserToClerk cfg is_email sink userData st = Some r"
  shows "case r of
           Inl (e, st') \<Rightarrow> userData = JNull \<and> st' = st
         | Inr st' \<Rightarrow>
             userData \<noteq> JNull
             \<and> (\<exists>evs. effects st' = effects st @ evs
                   \<and> submission_effects cfg is_email userData evs)
             \<and> migrated st \<le> migrated st' \<and> alreadyExists st \<le> alreadyExists st'
             \<and> migrated st' + alreadyExists st' \<le> migrated st + alreadyExists st + 1"
proof (rule processUserToClerk.raw_induct[where
      P = "\<lambda>cfg is_email sink userData st r.
             case r of
               Inl (e, st') \<Rightarrow> userData = JNull \<and> st' = st
             | Inr st' \<Rightarrow>
                 userData \<noteq> JNull
                 \<and> (\<exists>evs. effects st' = effects st @ evs
                       \<and> submission_effects cfg is_email userData evs)
                 \<and> migrated st \<le> migrated st' \<and> alreadyExists st \<le> alreadyExists st'
                 \<and> migrated st' + alreadyExists st' \<le> migrated st + alreadyExists st + 1",
      OF _ assms])
  fix f :: "config \<Rightarrow> (string \<Rightarrow> bool) \<Rightarrow> ('s, 'b) sink \<Rightarrow> 'n json \<Rightarrow> ('n, 'b, 's) state
               \<Rightarrow> (js_error \<times> ('n, 'b, 's) state + ('n, 'b, 's) state) option"
    and cfg is_email and sink :: "('s, 'b) sink" and userData :: "'n json"
    and st :: "('n, 'b, 's) state" and r
  let ?P = "\<lambda>cfg is_email userData (st :: ('n, 'b, 's) state) r.
             case r of
               Inl (e, st') \<Rightarrow> userData = JNull \<and> st' = st
             | Inr st' \<Rightarrow>
                 userData \<noteq> JNull
                 \<and> (\<exists>evs. effects st' = effects st @ evs
                       \<and> submission_effects cfg is_email userData evs)
                 \<and> migrated st \<le> migrated st' \<and> alreadyExists st \<le> alreadyExists st'
                 \<and> migrated st' + alreadyExists st' \<le> migrated st + alreadyExists st + 1"
  assume IH: "\<And>cfg is_email sink userData st r.
        f cfg is_email sink userData st = Some r \<Longrightarrow>
        (case r of
               Inl (e, st') \<Rightarrow> userData = JNull \<and> st' = st
             | Inr st' \<Rightarrow>
                 userData \<noteq> JNull
                 \<and> (\<exists>evs. effects st' = effects st @ evs
                       \<and> submission_effects cfg is_email userData evs)
                 \<and> migrated st \<le> migrated st' \<and> alreadyExists st \<le> alreadyExists st'
                 \<and> migrated st' + alreadyExists st' \<le> migrated st + alreadyExists st + 1)"
  assume run: "(case try_create cfg is_email sink userData st of
        (None, st1) \<Rightarrow> Some (Inr (st1\<lparr>migrated := migrated st1 + 1\<rparr>))
      | (Some error, st1) \<Rightarrow>
          if thrown_status error = Some 422 then
            (case read_property userData ''userId'' of
               Inl e \<Rightarrow> Some (Inl (e, st1))
             | Inr uid \<Rightarrow>
                 (let st2 = appendLog (LogEntry uid error) st1
                  in Some (Inr (st2\<lparr>alreadyExists := alreadyExists st2 + 1\<rparr>))))
          else if thrown_status error = Some 429 then
            f cfg is_email sink userData (rateLimitCooldown cfg st1)
          else
            (case read_property userData ''userId'' of
               Inl e \<Rightarrow> Some (Inl (e, st1))
             | Inr uid \<Rightarrow> Some (Inr (appendLog (LogEntry uid error) st1)))) = Some r"
  show "?P cfg is_email userData st r"
  proof (cases "safeParse is_email userData")
    case (Inl issues)
    with run show ?thesis
      by (auto simp: try_create_def appendLog_def submission_effects_def read_property_def
          split: if_splits)
  next
    case (Inr d)
    note rp = valid_read_property[OF Inr]
    from valid_is_object[OF Inr] have nn: "userData \<noteq> JNull" by auto
    obtain a s1 where a: "sink (sink_state st) (createUser cfg d) = (a, s1)"
      by (cases "sink (sink_state st) (createUser cfg d)")
    show ?thesis
    proof (cases a)
      case None
      with run Inr a nn show ?thesis
        by (auto simp: try_create_def submission_effects_def)
    next
      case (Some e)
      consider "status e = Some 422" | "status e = Some 429"
        | "status e \<noteq> Some 422" "status e \<noteq> Some 429"
        by blast
      then show ?thesis
      proof cases
        case 1
        with run Inr a Some nn show ?thesis
          by (auto simp: try_create_def submission_effects_def appendLog_def rp)
      next
        case 2
        with run Inr a Some
        have "f cfg is_email sink userData
                (rateLimitCooldown cfg
                  (st\<lparr>effects := effects st @ [CreateUser (createUser cfg d)], sink_state := s1\<rparr>)) = Some r"
          by (simp add: try_create_def)
        from IH[OF this] nn obtain st' evs where r: "r = Inr st'" and
          "effects st' = (effects st @ [CreateUser (createUser cfg d)]) @ RateLimitCooldown (RETRY_DELAY cfg) # evs"
          "submission_effects cfg is_email userData evs"
          "migrated st \<le> migrated st'" "alreadyExists st \<le> alreadyExists st'"
          "migrated st' + alreadyExists st' \<le> migrated st + alreadyExists st + 1"
          by (cases r) (auto simp: rateLimitCooldown_def)
        then show ?thesis using Inr nn
          by (auto simp: submission_effects_def)
      next
        case 3
        with run Inr a Some nn show ?thesis
          by (auto simp: try_create_def submission_effects_def appendLog_def rp)
      qed
    qed
  qed
qed

text \<open>The loop.\<close>

lemma loop_effects:
  fixes sink :: "('s, 'b) sink" and us :: "'n json list" and st st' :: "('n, 'b, 's) state"
  assumes "for_offsetUsers cfg is_email sink us st = Some (Inr st')"
  shows "\<exists>chunks. effects st' = effects st @ concat chunks
           \<and> list_all2 (record_effects cfg is_email) us chunks"
  using assms
proof (induction us arbitrary: st)
  case Nil
  then show ?case by simp
next
  case (Cons u us)
  from Cons.prems obtain st1 where
    p: "processUserToClerk cfg is_email sink u (cooldown cfg st) = Some (Inr st1)"
    and r: "for_offsetUsers cfg is_email sink us st1 = Some (Inr st')"
    by (auto split: option.splits sum.splits)
  from process_result[OF p] obtain evs where
    evs: "effects st1 = effects st @ Cooldown (DELAY cfg) # evs"
      "submission_effects cfg is_email u evs"
    by (auto simp: cooldown_def)
  from Cons.IH[OF r] obtain chunks where
    ch: "effects st' = effects st1 @ concat chunks"
      "list_all2 (record_effects cfg is_email) us chunks"
    by blast
  have "effects st' = effects st @ concat ((Cooldown (DELAY cfg) # evs) # chunks)"
    using evs(1) ch(1) by simp
  moreover have "list_all2 (record_effects cfg is_email) (u # us)
                   ((Cooldown (DELAY cfg) # evs) # chunks)"
    using evs(2) ch(2) by (simp add: record_effects_def)
  ultimately show ?case by blast
qed


lemma process_returns:
  fixes sink :: "('s, 'b) sink" and userData :: "'n json" and st :: "('n, 'b, 's) state"
  assumes "rate_limiting_ends sink" and "userData \<noteq> JNull"
  shows "\<exists>st'. processUserToClerk cfg is_email sink userData st = Some (Inr st')"
proof (cases "safeParse is_email userData")
  case (Inl issues)
  then show ?thesis using assms(2) by (simp add: process_invalid)
next
  case (Inr d)
  from assms(1) obtain n s_n where
    rl: "rate_limited sink (createUser cfg d) n (sink_state st) = Some s_n"
    and fin: "case fst (sink s_n (createUser cfg d)) of None \<Rightarrow> True
              | Some e \<Rightarrow> status e \<noteq> Some 429"
    unfolding rate_limiting_ends_def by blast
  let ?st_n = "st\<lparr>effects := effects st @ retries cfg (createUser cfg d) n, sink_state := s_n\<rparr>"
  have r: "processUserToClerk cfg is_email sink userData st =
           processUserToClerk cfg is_email sink userData ?st_n"
    by (rule process_retries[OF Inr rl])
  obtain a s' where a: "sink (sink_state ?st_n) (createUser cfg d) = (a, s')"
    by (cases "sink (sink_state ?st_n) (createUser cfg d)")
  show ?thesis
  proof (cases a)
    case None
    with a process_created[of is_email userData d sink ?st_n cfg s'] Inr r
    show ?thesis by simp
  next
    case (Some e)
    with a fin have ne: "status e \<noteq> Some 429" by simp
    show ?thesis
    proof (cases "status e = Some 422")
      case True
      with a Some process_422[of is_email userData d sink ?st_n cfg e s'] Inr r
      show ?thesis by simp
    next
      case False
      with a Some ne process_other[of is_email userData d sink ?st_n cfg e s'] Inr r
      show ?thesis by simp
    qed
  qed
qed

lemma loop_returns:
  fixes sink :: "('s, 'b) sink" and us :: "'n json list" and st :: "('n, 'b, 's) state"
  assumes "rate_limiting_ends sink" and "JNull \<notin> set us"
  shows "\<exists>st'. for_offsetUsers cfg is_email sink us st = Some (Inr st')"
  using assms(2)
proof (induction us arbitrary: st)
  case Nil
  show ?case by simp
next
  case (Cons u us)
  then have "u \<noteq> JNull" by auto
  from process_returns[OF assms(1) this, of cfg is_email "cooldown cfg st"]
  obtain st1 where "processUserToClerk cfg is_email sink u (cooldown cfg st) = Some (Inr st1)"
    by blast
  with Cons.IH[of st1] Cons.prems show ?case by simp
qed

lemma scripted_ends: "rate_limiting_ends scripted"
  unfolding rate_limiting_ends_def
proof (intro allI)
  fix s :: "unit api_error option list" and p
  show "\<exists>n s_n. rate_limited scripted p n s = Some s_n
        \<and> (case fst (scripted s_n p) of None \<Rightarrow> True | Some e \<Rightarrow> status e \<noteq> Some 429)"
  proof (induction s)
    case Nil
    have "rate_limited scripted p 0 [] = Some []" by simp
    moreover have "fst (scripted [] p) = None" by simp
    ultimately show ?case by (metis option.simps(4))
  next
    case (Cons a s)
    then obtain n s_n where n: "rate_limited scripted p n s = Some s_n"
      and f: "case fst (scripted s_n p) of None \<Rightarrow> True | Some e \<Rightarrow> status e \<noteq> Some 429"
      by blast
    show ?case
    proof (cases "\<exists>e. a = Some e \<and> status e = Some 429")
      case True
      then have "rate_limited scripted p (Suc n) (a # s) = Some s_n"
        using n by auto
      with f show ?thesis by blast
    next
      case False
      have "rate_limited scripted p 0 (a # s) = Some (a # s)" by simp
      moreover from False have "case fst (scripted (a # s) p) of None \<Rightarrow> True
          | Some e \<Rightarrow> status e \<noteq> Some 429"
        by (cases a) auto
      ultimately show ?thesis by blast
    qed
  qed
qed

lemma slice_nat: "slice (Some (int n)) xs = drop n xs"
  by (simp add: slice_def Let_def min_def)

lemma try_main:
  assumes "fs (nullish (nth_opt argv 2) ''users.json'') = Some users"
    and "fs (nullish (nth_opt argv 3) ''users-phone-numbers.json'') = Some phones"
    and "parsedUsersWithPhoneNumbers ops users phones = Inr merged"
  shows "main cfg ops is_email sink argv fs st =
           (case for_offsetUsers cfg is_email sink (offsetUsers cfg merged)
                   (st\<lparr>effects := effects st @ [ReadFile (nullish (nth_opt argv 2) ''users.json''),
                       ReadFile (nullish (nth_opt argv 3) ''users-phone-numbers.json'')]\<rparr>) of
              None \<Rightarrow> None
            | Some (Inl (e, st')) \<Rightarrow> Some (Inl (Uncaught e, st'))
            | Some (Inr st') \<Rightarrow> Some (Inr st'))"
  using assms by (simp add: main_def readFile_def Let_def)

text \<open>The merger.\<close>

lemma array_map_nth:
  assumes "array_map f xs = Inr ys"
  shows "length ys = length xs \<and> (\<forall>i < length xs. f (xs ! i) = Inr (ys ! i))"
  using assms
proof (induction xs arbitrary: ys)
  case Nil
  then show ?case by simp
next
  case (Cons x xs)
  from Cons.prems obtain y ys' where y: "f x = Inr y" and ys': "array_map f xs = Inr ys'"
    and ys: "ys = y # ys'"
    by (auto split: sum.splits)
  from Cons.IH[OF ys'] y ys show ?case
    by (auto simp: nth_Cons split: nat.splits)
qed

lemma array_map_returns:
  assumes "\<forall>x \<in> set xs. \<exists>y. f x = Inr y \<and> Q y"
  shows "\<exists>ys. array_map f xs = Inr ys \<and> (\<forall>y \<in> set ys. Q y)"
  using assms by (induction xs) (auto split: sum.splits)

lemma array_find_none:
  "\<forall>x \<in> set xs. f x = Inr False \<Longrightarrow> array_find f xs = Inr None"
  by (induction xs) auto

lemma array_find_first:
  "\<forall>q \<in> set pre. f q = Inr False \<Longrightarrow> f p = Inr True
     \<Longrightarrow> array_find f (pre @ p # post) = Inr (Some p)"
  by (induction pre) auto

lemma array_find_returns:
  assumes "\<forall>x \<in> set xs. \<exists>b. f x = Inr b"
  shows "array_find f xs = Inr None \<or> (\<exists>x \<in> set xs. array_find f xs = Inr (Some x))"
  using assms by (induction xs) (auto split: sum.splits)

lemma merge_user_returns:
  assumes "user \<noteq> JNull" and "JNull \<notin> set phones" and "list_all (stringable ops) phones"
  shows "\<exists>out. merge_user ops (JArr phones) user = Inr out \<and> out \<noteq> JNull"
proof -
  have "\<forall>p \<in> set phones. \<exists>b. id_matches ops user p = Inr b"
    using assms(1,2) by (auto simp: id_matches_def read_property_def)
  from array_find_returns[OF this]
  consider "array_find (id_matches ops user) phones = Inr None"
    | p where "p \<in> set phones" "array_find (id_matches ops user) phones = Inr (Some p)"
    by blast
  then show ?thesis
  proof cases
    case 1
    then show ?thesis using assms(1) by (simp add: merge_user_def)
  next
    case 2
    with assms(2,3) have nn: "p \<noteq> JNull" and s: "stringable ops p"
      by (auto simp: list_all_iff)
    show ?thesis
    proof (cases "get p ''phone''")
      case None
      with 2 nn assms(1) show ?thesis
        by (simp add: merge_user_def read_property_def)
    next
      case (Some phone)
      with s obtain str where "String ops phone = Inr str"
        by (cases "String ops phone") (auto simp: stringable_def)
      with 2 nn assms(1) Some show ?thesis
        by (simp add: merge_user_def read_property_def)
    qed
  qed
qed

lemma merge_returns:
  assumes "records_ok ops users phones"
  shows "\<exists>merged. parsedUsersWithPhoneNumbers ops (JArr users) (JArr phones) = Inr merged
           \<and> JNull \<notin> set merged"
proof -
  have "\<forall>u \<in> set users. \<exists>out. merge_user ops (JArr phones) u = Inr out \<and> out \<noteq> JNull"
  proof
    fix u assume "u \<in> set users"
    with assms have "u \<noteq> JNull" "JNull \<notin> set phones" "list_all (stringable ops) phones"
      by (auto simp: records_ok_def)
    then show "\<exists>out. merge_user ops (JArr phones) u = Inr out \<and> out \<noteq> JNull"
      by (rule merge_user_returns)
  qed
  from array_map_returns[OF this] show ?thesis
    by (auto simp: parsedUsersWithPhoneNumbers_def)
qed

lemma merged_nth:
  assumes "parsedUsersWithPhoneNumbers ops (JArr users) (JArr phones) = Inr merged"
  shows "length merged = length users
         \<and> (\<forall>i < length users. merge_user ops (JArr phones) (users ! i) = Inr (merged ! i))"
  using assms array_map_nth[of "merge_user ops (JArr phones)" users merged]
  by (simp add: parsedUsersWithPhoneNumbers_def)

lemma get_update:
  "get (JObj (AList.update k v ob)) k' = (if k' = k then Some v else map_of ob k')"
  by (simp add: get_def update_conv')

lemma all_deleted_run:
  assumes "all_deleted clerk us (clerk_state st) = Some s1"
  shows "for_clerkUsers clerk (us @ rest) st =
           for_clerkUsers clerk rest
             (st\<lparr>cleanup_effects := cleanup_effects st @ deletions us, clerk_state := s1,
                 usersDeleted := usersDeleted st + length us\<rparr>)"
  using assms
proof (induction us arbitrary: st)
  case Nil
  then show ?case by (cases st) (simp add: deletions_def)
next
  case (Cons u us)
  obtain a s' where a: "deleteUser clerk (clerk_state st) u = (a, s')"
    by (cases "deleteUser clerk (clerk_state st) u")
  with Cons.prems have n: "a = None" and r: "all_deleted clerk us s' = Some s1"
    by (auto split: option.splits)
  let ?st1 = "cleanup_appendLog (Deleted u)
               (st\<lparr>cleanup_effects := cleanup_effects st @ [DeleteUser u],
                   clerk_state := s', usersDeleted := usersDeleted st + 1\<rparr>)"
  have "for_clerkUsers clerk ((u # us) @ rest) st = for_clerkUsers clerk (us @ rest) ?st1"
    using a n by simp
  also have "\<dots> = for_clerkUsers clerk rest
             (?st1\<lparr>cleanup_effects := cleanup_effects ?st1 @ deletions us, clerk_state := s1,
                 usersDeleted := usersDeleted ?st1 + length us\<rparr>)"
    using Cons.IH[of ?st1] r by (simp add: cleanup_appendLog_def)
  also have "?st1\<lparr>cleanup_effects := cleanup_effects ?st1 @ deletions us, clerk_state := s1,
                 usersDeleted := usersDeleted ?st1 + length us\<rparr> =
             st\<lparr>cleanup_effects := cleanup_effects st @ deletions (u # us), clerk_state := s1,
                 usersDeleted := usersDeleted st + length (u # us)\<rparr>"
    by (simp add: cleanup_appendLog_def deletions_def)
  finally show ?case .
qed

text \<open>
  A record that fails validation, in the loop: one that is not \<^verbatim>\<open>null\<close> is logged
  and the loop goes on with the rest; \<^verbatim>\<open>null\<close> ends the loop with a \<^verbatim>\<open>TypeError\<close>.
\<close>

lemma loop_invalid:
  assumes "safeParse is_email userData = Inl issues" and "userData \<noteq> JNull"
  shows "for_offsetUsers cfg is_email sink (userData # rest) st =
           for_offsetUsers cfg is_email sink rest
             (appendLog (LogEntry (get userData ''userId'') (ZodError issues)) (cooldown cfg st))"
  by (simp add: process_invalid[OF assms])

lemma loop_null:
  "for_offsetUsers cfg is_email sink (JNull # rest) st = Some (Inl (TypeError, cooldown cfg st))"
  by (simp add: process_null)

text \<open>
  What makes the merger throw: a record that is \<^verbatim>\<open>null\<close> when there is an auxiliary
  record to compare it with, an auxiliary record that is \<^verbatim>\<open>null\<close>, a truthy
  \<^verbatim>\<open>phone\<close> that \<^verbatim>\<open>String\<close> cannot convert.
\<close>

lemma merge_throws:
  "parsedUsersWithPhoneNumbers int_ops (JArr [JNull]) (JArr [example_phone ''a'' 1])
     = Inl TypeError
   \<and> parsedUsersWithPhoneNumbers int_ops (JArr [example_user ''a'' ''a@x.org'']) (JArr [JNull])
     = Inl TypeError
   \<and> parsedUsersWithPhoneNumbers int_ops (JArr [example_user ''a'' ''a@x.org''])
       (JArr [JObj [(''id'', JStr ''a''), (''phone'', JObj [(''toString'', JNull)])]])
     = Inl TypeError
   \<and> parsedUsersWithPhoneNumbers int_ops (JArr [JNull]) (JArr []) = Inr [JNull]"
  by code_simp

section \<open>Start-up\<close>

text \<open>
  C1. With \<^verbatim>\<open>DELAY_MS\<close> and \<^verbatim>\<open>RETRY_DELAY_MS\<close> unset, the defaults are the strings
  \<^verbatim>\<open>1_000\<close> and \<^verbatim>\<open>10_000\<close>. \<^verbatim>\<open>parseInt\<close> stops at the underscore, so the
  pacing interval is 1 millisecond and the rate-limit cooldown 10 milliseconds, not
  1000 and 10000.
\<close>

theorem default_delays_parse_to_1_and_10:
  "DELAY_of (map_of []) = Some 1 \<and> RETRY_DELAY_of (map_of []) = Some 10"
  by (simp add: DELAY_of_def RETRY_DELAY_of_def nullish_def parseInt_def is_ws_def
      radix_digit_def digit_val_def digits_value_def)

text \<open>
  C2, as stated, fails: with a production key and \<^verbatim>\<open>IMPORT_TO_DEV_INSTANCE\<close> unset the
  script passes its start-up checks and goes on to read the input file.
\<close>

theorem production_key_unset_flag_starts:
  "production_key ''sk_live_abc''
   \<and> map_of [(''CLERK_SECRET_KEY'', ''sk_live_abc'')] ''IMPORT_TO_DEV_INSTANCE'' = None
   \<and> migration_script (map_of [(''CLERK_SECRET_KEY'', ''sk_live_abc'')]) int_ops has_at
         scripted [] (map_of []) [] =
       Some (Inl (ReadFailed ''users.json'',
                  \<lparr>migrated = 0, alreadyExists = 0, effects = [ReadFile ''users.json''],
                   sink_state = []\<rparr>))"
  by (simp add: production_key_def migration_script_def startup_def nullish_def
      hasherSchema_parse_def IMPORT_TO_DEV_of_def main_def readFile_def initial_def Let_def)

text \<open>
  C2, amended. For every key whose second segment is not \<^verbatim>\<open>live\<close>, with
  \<^verbatim>\<open>IMPORT_TO_DEV_INSTANCE\<close> unset, the migration script fails at start-up: no file is
  read, the sink is not called and nothing is logged.
\<close>

theorem nonproduction_key_unset_flag_fails_startup:
  assumes "env ''CLERK_SECRET_KEY'' = Some key"
    and "\<not> production_key key"
    and "env ''IMPORT_TO_DEV_INSTANCE'' = None"
  shows "\<exists>e. migration_script env ops is_email sink argv fs s0 =
           Some (Inl (AtStartup e,
                      \<lparr>migrated = 0, alreadyExists = 0, effects = [], sink_state = s0\<rparr>))"
  using assms
  by (simp add: migration_script_def startup_def IMPORT_TO_DEV_of_def nullish_def initial_def
      split: option.splits)

theorem nonproduction_key_unset_flag_fails_startup_witness:
  "map_of [(''CLERK_SECRET_KEY'', ''sk_test_abc'')] ''CLERK_SECRET_KEY'' = Some ''sk_test_abc''
   \<and> \<not> production_key ''sk_test_abc''
   \<and> map_of [(''CLERK_SECRET_KEY'', ''sk_test_abc'')] ''IMPORT_TO_DEV_INSTANCE'' = None
   \<and> (\<exists>e. migration_script (map_of [(''CLERK_SECRET_KEY'', ''sk_test_abc'')]) int_ops has_at
              scripted [] (map_of []) [] =
            Some (Inl (AtStartup e,
                       \<lparr>migrated = 0, alreadyExists = 0, effects = [], sink_state = []\<rparr>)))"
proof -
  let ?env = "map_of [(''CLERK_SECRET_KEY'', ''sk_test_abc'')]"
  have h1: "?env ''CLERK_SECRET_KEY'' = Some ''sk_test_abc''" by simp
  have h2: "\<not> production_key ''sk_test_abc''" by (simp add: production_key_def)
  have h3: "?env ''IMPORT_TO_DEV_INSTANCE'' = None" by simp
  have "\<exists>e. migration_script ?env int_ops has_at scripted [] (map_of []) [] =
            Some (Inl (AtStartup e,
                       \<lparr>migrated = 0, alreadyExists = 0, effects = [], sink_state = []\<rparr>))"
    by (rule nonproduction_key_unset_flag_fails_startup[OF h1 h2 h3])
  with h1 h2 h3 show ?thesis by blast
qed

text \<open>
  C3, as stated, fails: with a development key and \<^verbatim>\<open>IMPORT_TO_DEV_INSTANCE\<close> set to
  \<^verbatim>\<open>yes\<close>, which is not \<^verbatim>\<open>true\<close>, the script starts.
\<close>

theorem nonproduction_key_flag_yes_starts:
  "\<not> (isl (startup (map_of [(''CLERK_SECRET_KEY'', ''sk_test_abc''),
                            (''IMPORT_TO_DEV_INSTANCE'', ''yes'')]))
        \<longleftrightarrow> \<not> production_key ''sk_test_abc''
            \<and> map_of [(''CLERK_SECRET_KEY'', ''sk_test_abc''),
                       (''IMPORT_TO_DEV_INSTANCE'', ''yes'')] ''IMPORT_TO_DEV_INSTANCE''
                \<noteq> Some ''true'')"
  by (simp add: production_key_def startup_def nullish_def
      hasherSchema_parse_def IMPORT_TO_DEV_of_def)

text \<open>
  C3, amended. With a key that is set and not empty and a password hasher that is unset
  or one of the eight names, the migration script refuses to start if and only if the
  key is not a production one and \<^verbatim>\<open>IMPORT_TO_DEV_INSTANCE\<close> is unset or is the
  string \<^verbatim>\<open>false\<close>.
\<close>

theorem startup_refuses_iff_flag_false:
  assumes "env ''CLERK_SECRET_KEY'' = Some key"
    and "key \<noteq> []"
    and "hasherSchema_parse (nullish (env ''PASSWORD_HASHER'') ''bcrypt'') \<noteq> None"
  shows "isl (startup env) \<longleftrightarrow>
           \<not> production_key key
           \<and> (env ''IMPORT_TO_DEV_INSTANCE'' = None
                \<or> env ''IMPORT_TO_DEV_INSTANCE'' = Some ''false'')"
  using assms
  by (auto simp: startup_def IMPORT_TO_DEV_of_def nullish_def split: option.splits)

theorem startup_refuses_iff_flag_false_witness:
  "map_of [(''CLERK_SECRET_KEY'', ''sk_test_abc''), (''IMPORT_TO_DEV_INSTANCE'', ''false'')]
       ''CLERK_SECRET_KEY'' = Some ''sk_test_abc''
   \<and> ''sk_test_abc'' \<noteq> []
   \<and> hasherSchema_parse
         (nullish (map_of [(''CLERK_SECRET_KEY'', ''sk_test_abc''),
                           (''IMPORT_TO_DEV_INSTANCE'', ''false'')] ''PASSWORD_HASHER'')
            ''bcrypt'') \<noteq> None
   \<and> \<not> production_key ''sk_test_abc''
   \<and> map_of [(''CLERK_SECRET_KEY'', ''sk_test_abc''), (''IMPORT_TO_DEV_INSTANCE'', ''false'')]
         ''IMPORT_TO_DEV_INSTANCE'' = Some ''false''
   \<and> isl (startup (map_of [(''CLERK_SECRET_KEY'', ''sk_test_abc''),
                           (''IMPORT_TO_DEV_INSTANCE'', ''false'')]))"
proof -
  let ?env = "map_of [(''CLERK_SECRET_KEY'', ''sk_test_abc''),
                      (''IMPORT_TO_DEV_INSTANCE'', ''false'')]"
  have h1: "?env ''CLERK_SECRET_KEY'' = Some ''sk_test_abc''" by simp
  have h2: "''sk_test_abc'' \<noteq> []" by simp
  have h3: "hasherSchema_parse (nullish (?env ''PASSWORD_HASHER'') ''bcrypt'') \<noteq> None"
    by (simp add: nullish_def hasherSchema_parse_def)
  have h4: "\<not> production_key ''sk_test_abc''" by (simp add: production_key_def)
  have h5: "?env ''IMPORT_TO_DEV_INSTANCE'' = Some ''false''" by simp
  from h4 h5 have "isl (startup ?env)"
    using startup_refuses_iff_flag_false[of ?env "''sk_test_abc''", OF h1 h2 h3] by blast
  with h1 h2 h3 h4 h5 show ?thesis by blast
qed

section \<open>Outcomes of one record\<close>

text \<open>
  C4. When the sink answers the request of a valid record with status 429, \<open>n\<close> times
  in a row, the driver is where it was before the first attempt, for the same record,
  except that it has made \<open>n\<close> create calls, each followed by a sleep of
  \<^verbatim>\<open>RETRY_DELAY\<close>: no pacing delay, no counter changed, no log entry. If the sink
  then accepts the request, the call returns with \<open>migrated\<close> one higher,
  \<open>alreadyExists\<close> unchanged and one more create call, still with no log entry.
\<close>

theorem rate_limit_retry:
  fixes sink :: "('s, 'b) sink" and userData :: "'n json" and st :: "('n, 'b, 's) state"
  assumes "safeParse is_email userData = Inr d"
    and "rate_limited sink (createUser cfg d) n (sink_state st) = Some s_n"
  shows "processUserToClerk cfg is_email sink userData st =
           processUserToClerk cfg is_email sink userData
             (st\<lparr>effects := effects st @ retries cfg (createUser cfg d) n, sink_state := s_n\<rparr>)
         \<and> (sink s_n (createUser cfg d) = (None, s') \<longrightarrow>
              processUserToClerk cfg is_email sink userData st =
                Some (Inr (st\<lparr>migrated := migrated st + 1,
                         effects := effects st @ retries cfg (createUser cfg d) n
                                    @ [CreateUser (createUser cfg d)],
                         sink_state := s'\<rparr>)))"
proof (intro conjI impI)
  let ?st_n = "st\<lparr>effects := effects st @ retries cfg (createUser cfg d) n, sink_state := s_n\<rparr>"
  show r: "processUserToClerk cfg is_email sink userData st =
        processUserToClerk cfg is_email sink userData ?st_n"
    by (rule process_retries[OF assms])
  assume ok: "sink s_n (createUser cfg d) = (None, s')"
  have "processUserToClerk cfg is_email sink userData ?st_n =
          Some (Inr (?st_n\<lparr>migrated := migrated ?st_n + 1,
                   effects := effects ?st_n @ [CreateUser (createUser cfg d)],
                   sink_state := s'\<rparr>))"
    using process_created[of is_email userData d sink ?st_n cfg s'] assms(1) ok by simp
  with r show "processUserToClerk cfg is_email sink userData st =
                Some (Inr (st\<lparr>migrated := migrated st + 1,
                         effects := effects st @ retries cfg (createUser cfg d) n
                                    @ [CreateUser (createUser cfg d)],
                         sink_state := s'\<rparr>))"
    by simp
qed

theorem rate_limit_retry_witness:
  "safeParse has_at (example_user ''a'' ''a@x.org'')
     = Inr \<lparr>userId = ''a'', email = ''a@x.org'', firstName = None, lastName = None,
            password = None, phoneNumber = None\<rparr>
   \<and> rate_limited scripted (SkipPasswordRequirement ''a'' [''a@x.org''] None None) 1
         [Some (ApiError (Some 429) ()), None] = Some [None]
   \<and> scripted [None] (SkipPasswordRequirement ''a'' [''a@x.org''] None None) = (None, [])
   \<and> processUserToClerk example_config has_at scripted (example_user ''a'' ''a@x.org'')
         \<lparr>migrated = 0, alreadyExists = 0, effects = [],
          sink_state = [Some (ApiError (Some 429) ()), None]\<rparr>
       = Some (Inr \<lparr>migrated = 1, alreadyExists = 0,
               effects = [CreateUser (SkipPasswordRequirement ''a'' [''a@x.org''] None None),
                          RateLimitCooldown (Some 10),
                          CreateUser (SkipPasswordRequirement ''a'' [''a@x.org''] None None)],
               sink_state = []\<rparr>)"
proof -
  let ?d = "\<lparr>userId = ''a'', email = ''a@x.org'', firstName = None, lastName = None,
            password = None, phoneNumber = None\<rparr>"
  let ?p = "SkipPasswordRequirement ''a'' [''a@x.org''] None None"
  let ?st = "\<lparr>migrated = 0, alreadyExists = 0, effects = [],
          sink_state = [Some (ApiError (Some 429) ()), None]\<rparr> :: (int, unit, unit api_error option list) state"
  have p: "createUser example_config ?d = ?p"
    by (simp add: createUser_def)
  have h1: "safeParse has_at (example_user ''a'' ''a@x.org'') = Inr ?d"
    by (simp add: safeParse_def example_user_def get_def has_at_def)
  have h2: "rate_limited scripted (createUser example_config ?d) 1 (sink_state ?st) = Some [None]"
    by (simp add: p)
  have h3: "scripted [None] ?p = (None, [])"
    by simp
  have rd: "RETRY_DELAY example_config = Some 10"
    by (simp add: example_config_def)
  note c = rate_limit_retry[of has_at "example_user ''a'' ''a@x.org''" ?d scripted example_config 1 ?st
      "[None]" "[]", OF h1 h2, THEN conjunct2, unfolded p, THEN mp, OF h3]
  from c have "processUserToClerk example_config has_at scripted (example_user ''a'' ''a@x.org'') ?st
       = Some (Inr \<lparr>migrated = 1, alreadyExists = 0,
               effects = [CreateUser ?p, RateLimitCooldown (Some 10), CreateUser ?p],
               sink_state = []\<rparr>)"
    by (simp add: retries_def rd)
  with h1 h2 h3 show ?thesis by (simp add: p)
qed

text \<open>
  C5. When the sink answers the request of a valid record with status 422, the call
  returns: \<open>alreadyExists\<close> is one higher, \<open>migrated\<close> is unchanged, the one create
  call is followed by one log entry that holds the record's \<^verbatim>\<open>userId\<close> and the
  error, there is no second attempt, and the loop goes on with the next record.
\<close>

theorem conflict_counted_logged_not_retried:
  fixes sink :: "('s, 'b) sink" and userData :: "'n json" and st :: "('n, 'b, 's) state"
  assumes "safeParse is_email userData = Inr d"
    and "sink (sink_state st) (createUser cfg d) = (Some e, s')"
    and "status e = Some 422"
  shows "processUserToClerk cfg is_email sink userData st =
           Some (Inr (st\<lparr>alreadyExists := alreadyExists st + 1,
                    effects := effects st @ [CreateUser (createUser cfg d),
                       AppendLog (LogEntry (get userData ''userId'') (ClerkError e))],
                    sink_state := s'\<rparr>))
         \<and> for_offsetUsers cfg is_email sink (userData # rest) st =
             for_offsetUsers cfg is_email sink rest
               (st\<lparr>alreadyExists := alreadyExists st + 1,
                   effects := effects st @ [Cooldown (DELAY cfg), CreateUser (createUser cfg d),
                      AppendLog (LogEntry (get userData ''userId'') (ClerkError e))],
                   sink_state := s'\<rparr>)"
proof
  show "processUserToClerk cfg is_email sink userData st =
           Some (Inr (st\<lparr>alreadyExists := alreadyExists st + 1,
                    effects := effects st @ [CreateUser (createUser cfg d),
                       AppendLog (LogEntry (get userData ''userId'') (ClerkError e))],
                    sink_state := s'\<rparr>))"
    using process_422[of is_email userData d sink st cfg e s'] assms by simp
  have "sink (sink_state (cooldown cfg st)) (createUser cfg d) = (Some e, s')"
    using assms(2) by (simp add: cooldown_def)
  from process_422[of is_email userData d sink "cooldown cfg st" cfg e s', OF assms(1) this assms(3)]
  show "for_offsetUsers cfg is_email sink (userData # rest) st =
             for_offsetUsers cfg is_email sink rest
               (st\<lparr>alreadyExists := alreadyExists st + 1,
                   effects := effects st @ [Cooldown (DELAY cfg), CreateUser (createUser cfg d),
                      AppendLog (LogEntry (get userData ''userId'') (ClerkError e))],
                   sink_state := s'\<rparr>)"
    by (simp add: cooldown_def)
qed

theorem conflict_counted_logged_not_retried_witness:
  "safeParse has_at (example_user ''dup1'' ''d@x.org'')
     = Inr \<lparr>userId = ''dup1'', email = ''d@x.org'', firstName = None, lastName = None,
            password = None, phoneNumber = None\<rparr>
   \<and> refusing ''dup1'' () (SkipPasswordRequirement ''dup1'' [''d@x.org''] None None)
       = (Some (ApiError (Some 422) ()), ())
   \<and> status (ApiError (Some 422) ()) = Some 422
   \<and> for_offsetUsers example_config has_at (refusing ''dup1'')
         [example_user ''dup1'' ''d@x.org'']
         \<lparr>migrated = 0, alreadyExists = 0, effects = [], sink_state = ()\<rparr>
       = Some (Inr \<lparr>migrated = 0, alreadyExists = 1,
               effects = [Cooldown (Some 1),
                          CreateUser (SkipPasswordRequirement ''dup1'' [''d@x.org''] None None),
                          AppendLog (LogEntry (Some (JStr ''dup1''))
                                       (ClerkError (ApiError (Some 422) ())))],
               sink_state = ()\<rparr>)"
proof -
  let ?u = "example_user ''dup1'' ''d@x.org''"
  let ?d = "\<lparr>userId = ''dup1'', email = ''d@x.org'', firstName = None, lastName = None,
            password = None, phoneNumber = None\<rparr>"
  let ?p = "SkipPasswordRequirement ''dup1'' [''d@x.org''] None None"
  let ?st = "\<lparr>migrated = 0, alreadyExists = 0, effects = [], sink_state = ()\<rparr>
               :: (int, unit, unit) state"
  have p: "createUser example_config ?d = ?p"
    by (simp add: createUser_def)
  have dl: "DELAY example_config = Some 1"
    by (simp add: example_config_def)
  have uid: "get ?u ''userId'' = Some (JStr ''dup1'')"
    by (simp add: get_def example_user_def)
  have h1: "safeParse has_at ?u = Inr ?d"
    by (simp add: safeParse_def example_user_def get_def has_at_def)
  have h2: "refusing ''dup1'' (sink_state ?st) (createUser example_config ?d)
              = (Some (ApiError (Some 422) ()), ())"
    by (simp add: p refusing_def)
  have h3: "status (ApiError (Some 422) ()) = Some 422"
    by simp
  note c = conflict_counted_logged_not_retried[of has_at ?u ?d "refusing ''dup1''" ?st example_config "ApiError (Some 422) ()" "()" "[]",
      OF h1 h2 h3, THEN conjunct2, unfolded p dl uid]
  from c have "for_offsetUsers example_config has_at (refusing ''dup1'') [?u] ?st
       = Some (Inr \<lparr>migrated = 0, alreadyExists = 1,
               effects = [Cooldown (Some 1), CreateUser ?p,
                          AppendLog (LogEntry (Some (JStr ''dup1''))
                                       (ClerkError (ApiError (Some 422) ())))],
               sink_state = ()\<rparr>)"
    by simp
  with h1 h2 h3 show ?thesis by (simp add: p)
qed

text \<open>
  C6 holds of a record that fails validation and is not \<^verbatim>\<open>null\<close> (lemmas
  \<open>process_invalid\<close> and \<open>loop_invalid\<close>: no create call, no counter changed, one log
  entry, and the loop goes on). It does not hold of \<^verbatim>\<open>null\<close>, which an input file
  can hold and which fails validation too: the \<^verbatim>\<open>catch\<close> block reads
  \<^verbatim>\<open>userData.userId\<close> for the log entry, that read throws a \<^verbatim>\<open>TypeError\<close> before
  \<^verbatim>\<open>appendLog\<close> is called, and the error leaves the call, the loop and the run.
  Whatever the configuration, the sink and the records that follow, nothing is logged
  for the record and no later record is processed. With \<^verbatim>\<open>users.json\<close> holding
  \<^verbatim>\<open>null\<close> and then a valid record \<open>a\<close>, the run is rejected after the first
  pacing delay: no log entry, no create call for \<open>a\<close>.
\<close>

theorem null_record_aborts_the_run:
  fixes sink :: "('s, 'b) sink" and st :: "('n, 'b, 's) state"
  shows "safeParse is_email (JNull :: 'n json) = Inl [[]]
   \<and> processUserToClerk cfg is_email sink JNull st = Some (Inl (TypeError, st))
   \<and> for_offsetUsers cfg is_email sink (JNull # rest) st
       = Some (Inl (TypeError, cooldown cfg st))
   \<and> migration_script (map_of [(''CLERK_SECRET_KEY'', ''sk_live_abc'')]) int_ops has_at
         scripted []
         (map_of [(''users.json'', JArr [JNull, example_user ''a'' ''a@x.org'']),
                  (''users-phone-numbers.json'', JArr [])])
         []
       = Some (Inl (Uncaught TypeError,
                    \<lparr>migrated = 0, alreadyExists = 0,
                     effects = [ReadFile ''users.json'', ReadFile ''users-phone-numbers.json'',
                                Cooldown (Some 1)],
                     sink_state = []\<rparr>))"
proof -
  have a: "safeParse is_email (JNull :: 'n json) = Inl [[]]"
    by (simp add: safeParse_def)
  have b: "processUserToClerk cfg is_email sink JNull st = Some (Inl (TypeError, st))"
    by (subst processUserToClerk.simps)
      (simp add: try_create_def read_property_def safeParse_def)
  have c: "for_offsetUsers cfg is_email sink (JNull # rest) st
             = Some (Inl (TypeError, cooldown cfg st))"
    by (simp add: process_null)
  have d: "migration_script (map_of [(''CLERK_SECRET_KEY'', ''sk_live_abc'')]) int_ops has_at
         scripted []
         (map_of [(''users.json'', JArr [JNull, example_user ''a'' ''a@x.org'']),
                  (''users-phone-numbers.json'', JArr [])])
         []
       = Some (Inl (Uncaught TypeError,
                    \<lparr>migrated = 0, alreadyExists = 0,
                     effects = [ReadFile ''users.json'', ReadFile ''users-phone-numbers.json'',
                                Cooldown (Some 1)],
                     sink_state = []\<rparr>))"
    by code_simp
  from a b c d show ?thesis by simp
qed



section \<open>Record merger\<close>

text \<open>
  C7, as stated, fails when several auxiliary records match. With the phones 0 and 7
  under the id of the record \<open>b\<close>, in this order, an auxiliary record with the
  record's id has a truthy phone, yet the record comes out unchanged: \<^verbatim>\<open>find\<close>
  returns the first match only, and its phone, 0, is not truthy.
\<close>

theorem later_match_with_phone_is_ignored:
  "parsedUsersWithPhoneNumbers int_ops (JArr [example_user ''b'' ''b@x.org''])
      (JArr [example_phone ''b'' 0, example_phone ''b'' 7])
     = Inr [example_user ''b'' ''b@x.org'']
   \<and> id_matches int_ops (example_user ''b'' ''b@x.org'') (example_phone ''b'' 7) = Inr True
   \<and> truthy int_ops (get (example_phone ''b'' 7) ''phone'')"
  by code_simp

text \<open>
  C7, amended. The merge returns when no element of either array is \<^verbatim>\<open>null\<close> and
  every \<^verbatim>\<open>phone\<close> can be converted by \<^verbatim>\<open>String\<close>. When it returns, the merged
  list is as long as the primary one, and at every index \<open>i\<close>: when no auxiliary
  record has an \<^verbatim>\<open>id\<close> equal to the record's \<^verbatim>\<open>userId\<close>, the output is the input;
  otherwise the first such auxiliary record decides alone, whatever the later ones
  hold: when its \<^verbatim>\<open>phone\<close> is truthy the output is the copy of the input's
  properties with \<^verbatim>\<open>phoneNumber\<close> set to the one-element array of that phone
  converted to a string, so that every other property of an input that is an object
  reads as before; when its \<^verbatim>\<open>phone\<close> is not truthy the output is the input.
\<close>

theorem merge_first_match:
  fixes users phones :: "'n json list"
  shows "(records_ok ops users phones \<longrightarrow>
            (\<exists>merged. parsedUsersWithPhoneNumbers ops (JArr users) (JArr phones) = Inr merged))
         \<and> (parsedUsersWithPhoneNumbers ops (JArr users) (JArr phones) = Inr merged
              \<and> i < length users \<longrightarrow>
            length merged = length users
            \<and> ((\<forall>p \<in> set phones. id_matches ops (users ! i) p = Inr False) \<longrightarrow>
                 merged ! i = users ! i)
            \<and> (phones = pre @ p # post
                 \<and> (\<forall>q \<in> set pre. id_matches ops (users ! i) q = Inr False)
                 \<and> id_matches ops (users ! i) p = Inr True \<longrightarrow>
                 (if truthy ops (get p ''phone'') then
                    \<exists>phone s. get p ''phone'' = Some phone \<and> String ops phone = Inr s
                      \<and> merged ! i =
                          JObj (AList.update ''phoneNumber'' (JArr [JStr s]) (spread (users ! i)))
                      \<and> get (merged ! i) ''phoneNumber'' = Some (JArr [JStr s])
                      \<and> (\<forall>kvs k. users ! i = JObj kvs \<and> k \<noteq> ''phoneNumber'' \<longrightarrow>
                            get (merged ! i) k = get (users ! i) k)
                  else merged ! i = users ! i)))"
proof (intro conjI impI)
  let ?m = "id_matches ops (users ! i)"
  {
    assume "records_ok ops users phones"
    from merge_returns[OF this]
    show "\<exists>merged. parsedUsersWithPhoneNumbers ops (JArr users) (JArr phones) = Inr merged"
      by blast
  }
  assume a: "parsedUsersWithPhoneNumbers ops (JArr users) (JArr phones) = Inr merged
              \<and> i < length users"
  from a merged_nth[of ops users phones merged]
  have len: "length merged = length users"
    and mi: "merge_user ops (JArr phones) (users ! i) = Inr (merged ! i)"
    by auto
  show "length merged = length users" by (rule len)
  {
    assume "\<forall>p \<in> set phones. ?m p = Inr False"
    then have "array_find ?m phones = Inr None"
      by (rule array_find_none)
    with mi show "merged ! i = users ! i"
      by (simp add: merge_user_def)
  }
  {
    assume b: "phones = pre @ p # post \<and> (\<forall>q \<in> set pre. ?m q = Inr False) \<and> ?m p = Inr True"
    then have f: "array_find ?m phones = Inr (Some p)"
      using array_find_first[of pre ?m p post] by simp
    from b have nn: "p \<noteq> JNull"
      by (auto simp: id_matches_def read_property_def split: if_splits)
    then have rp: "read_property p ''phone'' = Inr (get p ''phone'')"
      by (simp add: read_property_def)
    show "if truthy ops (get p ''phone'') then
            \<exists>phone s. get p ''phone'' = Some phone \<and> String ops phone = Inr s
              \<and> merged ! i =
                  JObj (AList.update ''phoneNumber'' (JArr [JStr s]) (spread (users ! i)))
              \<and> get (merged ! i) ''phoneNumber'' = Some (JArr [JStr s])
              \<and> (\<forall>kvs k. users ! i = JObj kvs \<and> k \<noteq> ''phoneNumber'' \<longrightarrow>
                    get (merged ! i) k = get (users ! i) k)
          else merged ! i = users ! i"
    proof (cases "get p ''phone''")
      case None
      with mi f rp show ?thesis by (simp add: merge_user_def)
    next
      case (Some phone)
      show ?thesis
      proof (cases "truthy ops (Some phone)")
        case False
        with mi f rp Some show ?thesis by (simp add: merge_user_def)
      next
        case True
        with mi f rp Some obtain s where s: "String ops phone = Inr s"
          and out: "merged ! i =
              JObj (AList.update ''phoneNumber'' (JArr [JStr s]) (spread (users ! i)))"
          by (cases "String ops phone") (auto simp: merge_user_def)
        have "\<forall>kvs k. users ! i = JObj kvs \<and> k \<noteq> ''phoneNumber'' \<longrightarrow>
                    get (merged ! i) k = get (users ! i) k"
          by (auto simp: out spread_def get_def update_conv')
        with s out Some True show ?thesis
          by (simp add: get_update)
      qed
    qed
  }
qed

theorem merge_first_match_witness:
  "records_ok int_ops
      [example_user ''a'' ''a@x.org'', example_user ''b'' ''b@x.org'']
      [example_phone ''b'' 0, example_phone ''a'' 5551234, example_phone ''b'' 7]
   \<and> parsedUsersWithPhoneNumbers int_ops
        (JArr [example_user ''a'' ''a@x.org'', example_user ''b'' ''b@x.org''])
        (JArr [example_phone ''b'' 0, example_phone ''a'' 5551234, example_phone ''b'' 7])
      = Inr [JObj [(''userId'', JStr ''a''), (''email'', JStr ''a@x.org''),
                   (''phoneNumber'', JArr [JStr ''5551234''])],
             example_user ''b'' ''b@x.org'']
   \<and> (\<exists>s. String int_ops (JNum 5551234) = Inr s
          \<and> JObj [(''userId'', JStr ''a''), (''email'', JStr ''a@x.org''),
                   (''phoneNumber'', JArr [JStr ''5551234''])]
             = JObj (AList.update ''phoneNumber'' (JArr [JStr s])
                       (spread (example_user ''a'' ''a@x.org''))))"
proof -
  let ?a = "example_user ''a'' ''a@x.org''"
  let ?b = "example_user ''b'' ''b@x.org''"
  let ?users = "[?a, ?b]"
  let ?zero = "example_phone ''b'' 0"
  let ?five = "example_phone ''a'' 5551234"
  let ?seven = "example_phone ''b'' 7"
  let ?phones = "[?zero, ?five, ?seven]"
  let ?out = "JObj [(''userId'', JStr ''a''), (''email'', JStr ''a@x.org''),
                   (''phoneNumber'', JArr [JStr ''5551234''])] :: int json"
  let ?merged = "[?out, ?b]"
  have str: "num_String int_ops 5551234 = ''5551234''"
    by (simp add: int_ops_def decimal_def decimal_nat.simps)
  have t0: "\<not> num_truthy int_ops 0" and t5: "num_truthy int_ops 5551234"
    by (simp_all add: int_ops_def)
  have ok: "records_ok int_ops ?users ?phones"
    by (simp add: records_ok_def stringable_def example_user_def example_phone_def get_def)
  have m: "parsedUsersWithPhoneNumbers int_ops (JArr ?users) (JArr ?phones) = Inr ?merged"
    by (simp add: parsedUsersWithPhoneNumbers_def merge_user_def id_matches_def
        read_property_def get_def example_user_def example_phone_def spread_def str t0 t5)
  have pre: "?phones = [?zero] @ ?five # [?seven]
      \<and> (\<forall>q \<in> set [?zero]. id_matches int_ops (?users ! 0) q = Inr False)
      \<and> id_matches int_ops (?users ! 0) ?five = Inr True"
    by (simp add: id_matches_def read_property_def get_def example_user_def example_phone_def)
  have t: "truthy int_ops (get ?five ''phone'')"
    by (simp add: get_def example_phone_def t5)
  have ph: "get ?five ''phone'' = Some (JNum 5551234)"
    by (simp add: get_def example_phone_def)
  have mi: "parsedUsersWithPhoneNumbers int_ops (JArr ?users) (JArr ?phones) = Inr ?merged
              \<and> 0 < length ?users"
    using m by simp
  note c = merge_first_match[of int_ops ?users ?phones ?merged 0 "[?zero]" ?five "[?seven]"]
  note d = c[THEN conjunct2, THEN mp, OF mi, THEN conjunct2, THEN conjunct2, THEN mp, OF pre,
      unfolded if_P[OF t]]
  from d obtain phone s where "get ?five ''phone'' = Some phone"
    and s: "String int_ops phone = Inr s"
    and o: "?merged ! 0 = JObj (AList.update ''phoneNumber'' (JArr [JStr s]) (spread (?users ! 0)))"
    by blast
  with ph have "String int_ops (JNum 5551234) = Inr s"
    and "?out = JObj (AList.update ''phoneNumber'' (JArr [JStr s]) (spread ?a))"
    by simp_all
  then have "\<exists>s. String int_ops (JNum 5551234) = Inr s
          \<and> ?out = JObj (AList.update ''phoneNumber'' (JArr [JStr s]) (spread ?a))"
    by blast
  with ok m show ?thesis by blast
qed

section \<open>The run over the offset slice\<close>

text \<open>
  C8, as stated, fails for a negative offset: with \<^verbatim>\<open>OFFSET=-1\<close> and three records
  only the last one is processed, though indices 0 and 1 are not before the offset.
\<close>

theorem negative_offset_counts_from_end:
  "OFFSET_of (map_of [(''CLERK_SECRET_KEY'', ''sk_live_abc''), (''OFFSET'', ''-1'')]) = Some (- 1)
   \<and> migration_script (map_of [(''CLERK_SECRET_KEY'', ''sk_live_abc''), (''OFFSET'', ''-1'')])
         int_ops has_at scripted []
         (map_of [(''users.json'',
                   JArr [example_user ''a'' ''a@x.org'', example_user ''b'' ''b@x.org'',
                         example_user ''c'' ''c@x.org'']),
                  (''users-phone-numbers.json'', JArr [])])
         []
       = Some (Inr \<lparr>migrated = 1, alreadyExists = 0,
                    effects = [ReadFile ''users.json'', ReadFile ''users-phone-numbers.json'',
                               Cooldown (Some 1),
                               CreateUser (SkipPasswordRequirement ''c'' [''c@x.org''] None None)],
                    sink_state = []\<rparr>)"
  by code_simp

text \<open>
  C8, amended. The two input files hold arrays, and \<^verbatim>\<open>OFFSET\<close> is a natural number
  \<open>n\<close>. The merge returns, with no \<^verbatim>\<open>null\<close> in its result, when no element of
  either array is \<^verbatim>\<open>null\<close> and every \<^verbatim>\<open>phone\<close> can be converted by
  \<^verbatim>\<open>String\<close>. When the merge returns, the records processed are those of the merged
  list from index \<open>n\<close> on; the run returns when the sink's rate limiting ends and
  none of these records is \<^verbatim>\<open>null\<close>; and what a run that returns has done, after
  reading the two files, is one block of effects per record of that slice, in the
  order of the slice: each block is the pacing delay followed by what processing that
  one record does. Nothing is done for a record before the offset.
\<close>

theorem offset_slice_processed_in_order:
  fixes sink :: "('s, 'b) sink" and users phones :: "'n json list"
    and st st' :: "('n, 'b, 's) state"
  assumes "OFFSET cfg = Some (int n)"
    and "fs (nullish (nth_opt argv 2) ''users.json'') = Some (JArr users)"
    and "fs (nullish (nth_opt argv 3) ''users-phone-numbers.json'') = Some (JArr phones)"
  shows "(records_ok ops users phones \<longrightarrow>
            (\<exists>merged. parsedUsersWithPhoneNumbers ops (JArr users) (JArr phones) = Inr merged
               \<and> JNull \<notin> set merged))
         \<and> (parsedUsersWithPhoneNumbers ops (JArr users) (JArr phones) = Inr merged \<longrightarrow>
              offsetUsers cfg merged = drop n merged
              \<and> (rate_limiting_ends sink \<and> JNull \<notin> set (drop n merged) \<longrightarrow>
                   (\<exists>st1. main cfg ops is_email sink argv fs st = Some (Inr st1)))
              \<and> (main cfg ops is_email sink argv fs st = Some (Inr st') \<longrightarrow>
                   (\<exists>chunks.
                      effects st' = effects st
                        @ [ReadFile (nullish (nth_opt argv 2) ''users.json''),
                           ReadFile (nullish (nth_opt argv 3) ''users-phone-numbers.json'')]
                        @ concat chunks
                      \<and> list_all2 (record_effects cfg is_email) (drop n merged) chunks)))"
proof (intro conjI impI)
  {
    assume "records_ok ops users phones"
    then show "\<exists>merged. parsedUsersWithPhoneNumbers ops (JArr users) (JArr phones) = Inr merged
               \<and> JNull \<notin> set merged"
      by (rule merge_returns)
  }
  assume mg: "parsedUsersWithPhoneNumbers ops (JArr users) (JArr phones) = Inr merged"
  show off: "offsetUsers cfg merged = drop n merged"
    using assms(1) by (simp add: offsetUsers_def slice_nat)
  let ?st2 = "st\<lparr>effects := effects st @ [ReadFile (nullish (nth_opt argv 2) ''users.json''),
                    ReadFile (nullish (nth_opt argv 3) ''users-phone-numbers.json'')]\<rparr>"
  note m = try_main[OF assms(2,3) mg, of cfg is_email sink st]
  {
    assume "rate_limiting_ends sink \<and> JNull \<notin> set (drop n merged)"
    then have "\<exists>st1. for_offsetUsers cfg is_email sink (offsetUsers cfg merged) ?st2
                 = Some (Inr st1)"
      using loop_returns[of sink "offsetUsers cfg merged" cfg is_email ?st2] off by simp
    with m show "\<exists>st1. main cfg ops is_email sink argv fs st = Some (Inr st1)"
      by auto
  }
  {
    assume "main cfg ops is_email sink argv fs st = Some (Inr st')"
    then have "for_offsetUsers cfg is_email sink (offsetUsers cfg merged) ?st2 = Some (Inr st')"
      using m by (auto split: option.splits sum.splits)
    from loop_effects[OF this] off
    show "\<exists>chunks.
                      effects st' = effects st
                        @ [ReadFile (nullish (nth_opt argv 2) ''users.json''),
                           ReadFile (nullish (nth_opt argv 3) ''users-phone-numbers.json'')]
                        @ concat chunks
                      \<and> list_all2 (record_effects cfg is_email) (drop n merged) chunks"
      by auto
  }
qed

theorem offset_slice_processed_in_order_witness:
  "records_ok int_ops
      [example_user ''a'' ''a@x.org'', example_user ''b'' ''b@x.org'',
       example_user ''c'' ''c@x.org''] []
   \<and> parsedUsersWithPhoneNumbers int_ops
        (JArr [example_user ''a'' ''a@x.org'', example_user ''b'' ''b@x.org'',
               example_user ''c'' ''c@x.org'']) (JArr [])
      = Inr [example_user ''a'' ''a@x.org'', example_user ''b'' ''b@x.org'',
             example_user ''c'' ''c@x.org'']
   \<and> main (example_config\<lparr>OFFSET := Some 2\<rparr>) int_ops has_at scripted []
         (map_of [(''users.json'',
                   JArr [example_user ''a'' ''a@x.org'', example_user ''b'' ''b@x.org'',
                         example_user ''c'' ''c@x.org'']),
                  (''users-phone-numbers.json'', JArr [])])
         \<lparr>migrated = 0, alreadyExists = 0, effects = [], sink_state = []\<rparr>
       = Some (Inr \<lparr>migrated = 1, alreadyExists = 0,
                    effects = [ReadFile ''users.json'', ReadFile ''users-phone-numbers.json'',
                               Cooldown (Some 1),
                               CreateUser (SkipPasswordRequirement ''c'' [''c@x.org''] None None)],
                    sink_state = []\<rparr>)
   \<and> offsetUsers (example_config\<lparr>OFFSET := Some 2\<rparr>)
         [example_user ''a'' ''a@x.org'', example_user ''b'' ''b@x.org'',
          example_user ''c'' ''c@x.org'']
       = drop 2 [example_user ''a'' ''a@x.org'', example_user ''b'' ''b@x.org'',
                 example_user ''c'' ''c@x.org'']"
proof -
  let ?cfg = "example_config\<lparr>OFFSET := Some 2\<rparr>"
  let ?users = "[example_user ''a'' ''a@x.org'', example_user ''b'' ''b@x.org'',
                    example_user ''c'' ''c@x.org'']"
  let ?fs = "map_of [(''users.json'', JArr ?users), (''users-phone-numbers.json'', JArr [])]"
  let ?st = "\<lparr>migrated = 0, alreadyExists = 0, effects = [], sink_state = []\<rparr>
               :: (int, unit, unit api_error option list) state"
  let ?st' = "\<lparr>migrated = 1, alreadyExists = 0,
                    effects = [ReadFile ''users.json'', ReadFile ''users-phone-numbers.json'',
                               Cooldown (Some 1),
                               CreateUser (SkipPasswordRequirement ''c'' [''c@x.org''] None None)],
                    sink_state = []\<rparr> :: (int, unit, unit api_error option list) state"
  have h1: "OFFSET ?cfg = Some (int 2)" by simp
  have h2: "?fs (nullish (nth_opt [] 2) ''users.json'') = Some (JArr ?users)"
    by (simp add: nullish_def)
  have h3: "?fs (nullish (nth_opt [] 3) ''users-phone-numbers.json'') = Some (JArr [])"
    by (simp add: nullish_def)
  have ok: "records_ok int_ops ?users []"
    by code_simp
  have mg: "parsedUsersWithPhoneNumbers int_ops (JArr ?users) (JArr []) = Inr ?users"
    by code_simp
  have h4: "main ?cfg int_ops has_at scripted [] ?fs ?st = Some (Inr ?st')"
    by code_simp
  have nn: "rate_limiting_ends scripted \<and> JNull \<notin> set (drop 2 ?users)"
    using scripted_ends by (simp add: example_user_def)
  note c = offset_slice_processed_in_order[OF h1 h2 h3, of int_ops ?users scripted has_at ?st ?st',
      THEN conjunct2, THEN mp, OF mg]
  from c have "offsetUsers ?cfg ?users = drop 2 ?users"
    by blast
  moreover from c nn
  have "\<exists>st1. main ?cfg int_ops has_at scripted [] ?fs ?st = Some (Inr st1)"
    by blast
  ultimately show ?thesis using ok mg h4 by blast
qed

section \<open>Cleanup driver\<close>

text \<open>
  C9. The cleanup run deletes the listed users in their order and logs every deletion.
  When all succeed the run ends without an error, the counter up by the number of
  users. When the deletion of \<open>u\<close> is the first that fails, the failure is logged
  with the error, that error is what the run throws, the counter is up by the number
  of users before \<open>u\<close>, and no user after \<open>u\<close> is deleted.
\<close>

theorem cleanup_aborts_on_first_error:
  fixes clerk :: "('b, 's) clerk_users" and st :: "('b, 's) cleanup_state"
  assumes "getUserList clerk (clerk_state st) = (Inr us, s0)"
  shows "(all_deleted clerk us s0 = Some s1 \<longrightarrow>
            cleanup_main clerk st =
              (None,
               st\<lparr>cleanup_effects := cleanup_effects st @ GetUserList # deletions us,
                   clerk_state := s1, usersDeleted := usersDeleted st + length us\<rparr>))
         \<and> (us = pre @ u # post \<and> all_deleted clerk pre s0 = Some s2
              \<and> deleteUser clerk s2 u = (Some error, s3) \<longrightarrow>
            cleanup_main clerk st =
              (Some error,
               st\<lparr>cleanup_effects := cleanup_effects st @ GetUserList # deletions pre
                     @ [DeleteUser u, CleanupLog (NotDeleted u error)],
                   clerk_state := s3, usersDeleted := usersDeleted st + length pre\<rparr>))"
proof (intro conjI impI)
  let ?st0 = "st\<lparr>cleanup_effects := cleanup_effects st @ [GetUserList], clerk_state := s0\<rparr>"
  have m: "cleanup_main clerk st = for_clerkUsers clerk us ?st0"
    using assms by (simp add: cleanup_main_def)
  {
    assume a: "all_deleted clerk us s0 = Some s1"
    then have "all_deleted clerk us (clerk_state ?st0) = Some s1" by simp
    from all_deleted_run[OF this, of "[]"] m
    show "cleanup_main clerk st =
              (None,
               st\<lparr>cleanup_effects := cleanup_effects st @ GetUserList # deletions us,
                   clerk_state := s1, usersDeleted := usersDeleted st + length us\<rparr>)"
      by simp
  }
  {
    assume a: "us = pre @ u # post \<and> all_deleted clerk pre s0 = Some s2
              \<and> deleteUser clerk s2 u = (Some error, s3)"
    then have "all_deleted clerk pre (clerk_state ?st0) = Some s2" by simp
    from all_deleted_run[OF this, of "u # post"] m a
    show "cleanup_main clerk st =
              (Some error,
               st\<lparr>cleanup_effects := cleanup_effects st @ GetUserList # deletions pre
                     @ [DeleteUser u, CleanupLog (NotDeleted u error)],
                   clerk_state := s3, usersDeleted := usersDeleted st + length pre\<rparr>)"
      by (simp add: cleanup_appendLog_def)
  }
qed

theorem cleanup_aborts_on_first_error_witness:
  "cleanup_main (failing_for ''u2'') \<lparr>usersDeleted = 0, cleanup_effects = [], clerk_state = ()\<rparr>
     = (Some ''not found'',
        \<lparr>usersDeleted = 1,
         cleanup_effects = [GetUserList, DeleteUser ''u1'', CleanupLog (Deleted ''u1''),
                            DeleteUser ''u2'', CleanupLog (NotDeleted ''u2'' ''not found'')],
         clerk_state = ()\<rparr>)
   \<and> cleanup_main (failing_for ''nobody'')
       \<lparr>usersDeleted = 0, cleanup_effects = [], clerk_state = ()\<rparr>
     = (None,
        \<lparr>usersDeleted = 3,
         cleanup_effects = [GetUserList, DeleteUser ''u1'', CleanupLog (Deleted ''u1''),
                            DeleteUser ''u2'', CleanupLog (Deleted ''u2''),
                            DeleteUser ''u3'', CleanupLog (Deleted ''u3'')],
         clerk_state = ()\<rparr>)"
proof -
  let ?st = "\<lparr>usersDeleted = 0, cleanup_effects = [], clerk_state = ()\<rparr>
               :: (string, unit) cleanup_state"
  have g: "getUserList (failing_for i) (clerk_state ?st) = (Inr [''u1'', ''u2'', ''u3''], ())" for i
    by (simp add: failing_for_def)
  have f: "[''u1'', ''u2'', ''u3''] = [''u1''] @ ''u2'' # [''u3'']
           \<and> all_deleted (failing_for ''u2'') [''u1''] () = Some ()
           \<and> deleteUser (failing_for ''u2'') () ''u2'' = (Some ''not found'', ())"
    by (simp add: failing_for_def)
  have a: "all_deleted (failing_for ''nobody'') [''u1'', ''u2'', ''u3''] () = Some ()"
    by (simp add: failing_for_def)
  note c1 = cleanup_aborts_on_first_error[OF g, of "''u2''" "()" "[''u1'']" "''u2''" "[''u3'']" "()" "''not found''" "()",
      THEN conjunct2, THEN mp, OF f]
  note c2 = cleanup_aborts_on_first_error[OF g, of "''nobody''" "()" "[]" "''u2''" "[]" "()" "''not found''" "()",
      THEN conjunct1, THEN mp, OF a]
  from c1 c2 show ?thesis by (simp add: deletions_def)
qed

end
